theory Spec2Isabelle
  imports Main "HOL-Library.AList"
begin

section \<open>Values of the host language\<close>

text \<open>
  An optional TypeScript value: \<^verbatim>\<open>undefined\<close>, \<^verbatim>\<open>null\<close> or a proper value.
\<close>

datatype 'a nullable = Undefined | Null | Val 'a

text \<open>\<^verbatim>\<open>a ?? b\<close>, the right operand being optional itself.\<close>

fun nullish_coalesce :: "'a nullable \<Rightarrow> 'a nullable \<Rightarrow> 'a nullable" where
  "nullish_coalesce (Val a) b = Val a"
| "nullish_coalesce Null b = b"
| "nullish_coalesce Undefined b = b"

text \<open>\<^verbatim>\<open>a ?? b\<close>, the right operand being a proper value.\<close>

fun nullish_default :: "'a nullable \<Rightarrow> 'a \<Rightarrow> 'a" where
  "nullish_default (Val a) b = a"
| "nullish_default Null b = b"
| "nullish_default Undefined b = b"

text \<open>\<^verbatim>\<open>Boolean(v)\<close> for an optional object or function: only null and undefined are falsy.\<close>

fun js_Boolean :: "'a nullable \<Rightarrow> bool" where
  "js_Boolean (Val a) = True"
| "js_Boolean Null = False"
| "js_Boolean Undefined = False"

text \<open>\<^verbatim>\<open>a || b\<close> on strings: the empty string is the falsy one.\<close>

definition or_string :: "string \<Rightarrow> string \<Rightarrow> string" where
  "or_string a b = (if a = [] then b else a)"

section \<open>Data model\<close>

type_synonym handle = nat
type_synonym URI = string
type_synonym err = string
type_synonym message = string
type_synonym NotebookEditor = string
type_synonym NotebookCellExecutionTask = nat
type_synonym NotebookKernelPreload = "URI \<times> string list"

datatype ExtensionIdentifier = ExtensionIdentifier (ident_value: string)

record IExtensionDescription =
  ext_identifier :: ExtensionIdentifier
  displayName :: "string nullable"
  name :: string
  extensionLocation :: URI

text \<open>The API objects handed to extension code, with the fields this file reads.\<close>

record NotebookDocument =
  uri :: URI

record NotebookCell =
  index :: int
  notebook :: NotebookDocument

text \<open>The objects of the notebook collaborator, with the members this file uses.\<close>

record ExtHostCell =
  cell_handle :: nat
  apiCell :: NotebookCell

record ExtHostNotebookDocument =
  doc_uri :: URI
  apiNotebook :: NotebookDocument
  getCell :: "nat \<Rightarrow> ExtHostCell nullable"
  getCellFromApiCell :: "NotebookCell \<Rightarrow> ExtHostCell nullable"

record ExtHostNotebookEditor =
  apiEditor :: NotebookEditor

text \<open>
  Extension handlers are extension code. What the registry sees of a call is whether the
  awaited call returned or threw (a rejected promise counts as a throw at the
  \<^verbatim>\<open>await\<close>). What a handler does to the controller while it runs is a sequence of
  calls of the operations below, made by the extension; a dispatch function of the model
  covers the registry's own steps, up to and after the awaited call.
\<close>

datatype outcome = Returned | Threw err

text \<open>
  An execute handler is either the closure \<^verbatim>\<open>_defaultExecutHandler\<close> of line 52, with
  the \<^verbatim>\<open>data.id\<close> and the extension identifier it captured (no setter writes either), or a
  function of the extension, called with the cells, the notebook and the controller.
\<close>

datatype NotebookExecuteHandler =
    DefaultExecutHandler string ExtensionIdentifier
  | ExtensionExecuteHandler "NotebookCell list \<Rightarrow> NotebookDocument \<Rightarrow> handle \<Rightarrow> outcome"

type_synonym NotebookInterruptHandler = "NotebookDocument \<Rightarrow> outcome"

text \<open>\<^verbatim>\<open>INotebookKernelDto2\<close>, as built in lines 60-67 and written by the setters.\<close>

record INotebookKernelDto2 =
  dto_id :: string
  dto_viewType :: string
  dto_extensionId :: ExtensionIdentifier
  dto_extensionLocation :: URI
  dto_label :: string
  dto_detail :: "string nullable"
  dto_description :: "string nullable"
  dto_supportedLanguages :: "string list nullable"
  dto_hasExecutionOrder :: "bool nullable"
  dto_supportsInterrupt :: "bool nullable"
  dto_preloads :: "NotebookKernelPreload list"

text \<open>
  Modelled from the spec: the class \<^verbatim>\<open>Emitter\<close> (\<^verbatim>\<open>vs/base/common/event\<close>) is not among the
  sources. An emitter is an event source that can be closed; the model keeps whether it
  was disposed and the events \<^verbatim>\<open>fire\<close> was called with, in order.
\<close>

record 'e Emitter =
  emitter_disposed :: bool
  fired :: "'e list"

datatype selection_event = SelectionEvent (selected: bool) (ev_notebook: NotebookDocument)

text \<open>The argument of \<^verbatim>\<open>onDidReceiveMessage.fire\<close>; \<open>frozen\<close> records \<^verbatim>\<open>Object.freeze\<close>.\<close>

datatype message_event =
  MessageEvent (frozen: bool) (ev_editor: NotebookEditor) (ev_message: message)

text \<open>
  Modelled from the spec: the class \<^verbatim>\<open>ResourceMap\<close> (\<^verbatim>\<open>vs/base/common/map\<close>) is not among the
  sources. It is a map keyed by the identity of a URI, here a partial function on URIs;
  \<^verbatim>\<open>has\<close> asks whether a key is bound.

  The variables one call of \<^verbatim>\<open>createNotebookController\<close> closes over. The controller
  object, the emitters and the \<^verbatim>\<open>associatedNotebooks\<close> map are shared by reference
  between the closure and the \<^verbatim>\<open>IKernelData\<close> record; the model keeps them once, in
  the closure, at the address the record's \<open>controller\<close> field holds.
\<close>

record closure =
  c_id :: string
  c_extension :: IExtensionDescription
  isDisposed :: bool
  commandDisposables_disposed :: bool
  onDidChangeSelection :: "selection_event Emitter"
  onDidReceiveMessage :: "message_event Emitter"
  data :: INotebookKernelDto2
  executeHandler_var :: NotebookExecuteHandler
  interruptHandler_var :: "NotebookInterruptHandler nullable"
  tokenPool :: nat
  associatedNotebooks :: "URI \<rightharpoonup> bool"

record IKernelData =
  extensionId :: ExtensionIdentifier
  controller :: handle

text \<open>
  Calls on the remote proxy, scheduled continuations, console output and outbound calls.
  A proxy call holds the DTO as it is when the call is made: the DTO object is shared, and
  \<^verbatim>\<open>$updateKernel\<close> is called from the continuation, after the setters of the turn.
\<close>

datatype proxy_call =
    AddKernel handle INotebookKernelDto2
  | UpdateKernel handle INotebookKernelDto2
  | RemoveKernel handle
  | PostMessage handle "string nullable" message
  | UpdateNotebookPriority handle URI "int nullable"

datatype microtask = UpdateContinuation handle nat

datatype console_entry =
    ConsoleLog err
  | ConsoleWarnNoExecuteHandler string ExtensionIdentifier
  | ConsoleError err

datatype outbound_call =
    ExecuteHandlerCall NotebookExecuteHandler "NotebookCell list" NotebookDocument handle
  | InterruptHandlerCall NotebookDocument handle
  | CancelOneNotebookCellExecution ExtHostCell

text \<open>
  The registry \<^verbatim>\<open>ExtHostNotebookKernels\<close>: its two fields, the closures of the controllers
  created so far (a controller object outlives its registration), the microtask queue
  and the traces of what the registry did to the outside.
\<close>

record state =
  kernelData :: "(handle \<times> IKernelData) list"
  handlePool :: nat
  controllers :: "handle \<rightharpoonup> closure"
  microtasks :: "microtask list"
  proxy :: "proxy_call list"
  console :: "console_entry list"
  calls :: "outbound_call list"

definition init_state :: state where
  "init_state = \<lparr>kernelData = [], handlePool = 0, controllers = Map.empty,
     microtasks = [], proxy = [], console = [], calls = []\<rparr>"

text \<open>
  Functions of this repository that the file imports and that are not part of the
  sources at hand: they are parameters of the model.
\<close>

record env =
  ExtensionIdentifier_equals :: "ExtensionIdentifier \<Rightarrow> ExtensionIdentifier \<Rightarrow> bool"
  NotebookKernelPreload_from :: "NotebookKernelPreload \<Rightarrow> NotebookKernelPreload"
  getNotebookDocument :: "URI \<Rightarrow> ExtHostNotebookDocument"
  getEditorById :: "string \<Rightarrow> ExtHostNotebookEditor nullable"
  getIdByEditor :: "NotebookEditor \<Rightarrow> string"
  createNotebookCellExecution :: "ExtHostCell \<Rightarrow> NotebookCellExecutionTask nullable"

datatype error =
    ControllerAlreadyExists string
  | CellRemoved
  | ControllerDisposed
  | NotAssociated URI
  | InvalidCell
  | UnknownEditor string
  | HandlerThrew err

text \<open>The messages of the errors the file constructs (lines 45, 157, 160, 163, 168, 276).\<close>

fun error_message :: "error \<Rightarrow> string" where
  "error_message (ControllerAlreadyExists i) =
     ''notebook controller with id '' @ [CHR 39] @ i @ [CHR 39] @ '' ALREADY exist''"
| "error_message CellRemoved = ''CANNOT execute cell that has been REMOVED from notebook''"
| "error_message ControllerDisposed = ''notebook controller is DISPOSED''"
| "error_message (NotAssociated u) = ''notebook controller is NOT associated to notebook: '' @ u"
| "error_message InvalidCell = ''invalid cell''"
| "error_message (UnknownEditor e) = ''send message for UNKNOWN editor: '' @ e"
| "error_message (HandlerThrew e) = e"

section \<open>createNotebookController\<close>

text \<open>The scan of lines 43-47 over \<^verbatim>\<open>this._kernelData.values()\<close>.\<close>

definition controller_id :: "state \<Rightarrow> handle \<Rightarrow> string nullable" where
  "controller_id s a = (case controllers s a of None \<Rightarrow> Undefined | Some c \<Rightarrow> Val (c_id c))"

fun already_exists ::
  "env \<Rightarrow> state \<Rightarrow> IExtensionDescription \<Rightarrow> string \<Rightarrow> (handle \<times> IKernelData) list \<Rightarrow> bool" where
  "already_exists e s extension id' [] = False"
| "already_exists e s extension id' ((h, d) # rest) =
     (if controller_id s (controller d) = Val id'
         \<and> ExtensionIdentifier_equals e (ext_identifier extension) (extensionId d)
      then True
      else already_exists e s extension id' rest)"

definition new_data ::
  "env \<Rightarrow> IExtensionDescription \<Rightarrow> string \<Rightarrow> string \<Rightarrow> string
     \<Rightarrow> NotebookKernelPreload list nullable \<Rightarrow> INotebookKernelDto2" where
  "new_data e extension id' viewType label' preloads =
     \<lparr>dto_id = ident_value (ext_identifier extension) @ ''/'' @ id',
      dto_viewType = viewType,
      dto_extensionId = ext_identifier extension,
      dto_extensionLocation = extensionLocation extension,
      dto_label = or_string label' (ident_value (ext_identifier extension)),
      dto_detail = Undefined,
      dto_description = Undefined,
      dto_supportedLanguages = Undefined,
      dto_hasExecutionOrder = Undefined,
      dto_supportsInterrupt = Undefined,
      dto_preloads = (case preloads of
                        Val ps \<Rightarrow> map (NotebookKernelPreload_from e) ps
                      | _ \<Rightarrow> [])\<rparr>"

definition new_closure ::
  "env \<Rightarrow> IExtensionDescription \<Rightarrow> string \<Rightarrow> string \<Rightarrow> string
     \<Rightarrow> NotebookExecuteHandler nullable \<Rightarrow> NotebookKernelPreload list nullable \<Rightarrow> closure" where
  "new_closure e extension id' viewType label' handler preloads =
     \<lparr>c_id = id',
      c_extension = extension,
      isDisposed = False,
      commandDisposables_disposed = False,
      onDidChangeSelection = \<lparr>emitter_disposed = False, fired = []\<rparr>,
      onDidReceiveMessage = \<lparr>emitter_disposed = False, fired = []\<rparr>,
      data = new_data e extension id' viewType label' preloads,
      executeHandler_var = nullish_default handler
        (DefaultExecutHandler (ident_value (ext_identifier extension) @ ''/'' @ id')
           (ext_identifier extension)),
      interruptHandler_var = Undefined,
      tokenPool = 0,
      associatedNotebooks = Map.empty\<rparr>"

definition createNotebookController ::
  "env \<Rightarrow> IExtensionDescription \<Rightarrow> string \<Rightarrow> string \<Rightarrow> string
     \<Rightarrow> NotebookExecuteHandler nullable \<Rightarrow> NotebookKernelPreload list nullable
     \<Rightarrow> state \<Rightarrow> error + (handle \<times> state)" where
  "createNotebookController e extension id' viewType label' handler preloads s =
     (if already_exists e s extension id' (kernelData s)
      then Inl (ControllerAlreadyExists id')
      else
        let handle = handlePool s;
            c = new_closure e extension id' viewType label' handler preloads
        in Inr (handle,
             s\<lparr>handlePool := handlePool s + 1,
               proxy := proxy s @ [AddKernel handle (data c)],
               controllers := (controllers s)(handle \<mapsto> c),
               kernelData := AList.update handle
                  \<lparr>extensionId = ext_identifier extension, controller = handle\<rparr> (kernelData s)\<rparr>))"

text \<open>
  The rejection handler of lines 74-78, run when the promise of \<^verbatim>\<open>$addKernel\<close> for this
  handle is rejected with \<open>err\<close>.
\<close>

definition addKernel_rejected :: "handle \<Rightarrow> err \<Rightarrow> state \<Rightarrow> state" where
  "addKernel_rejected handle err s =
     (case controllers s handle of
        None \<Rightarrow> s
      | Some c \<Rightarrow>
          s\<lparr>console := console s @ [ConsoleLog err],
            controllers := (controllers s)(handle \<mapsto> c\<lparr>isDisposed := True\<rparr>)\<rparr>)"

section \<open>The coalesced update\<close>

text \<open>\<^verbatim>\<open>_update\<close> (lines 84-94): the synchronous part, which schedules the continuation.\<close>

definition priv_update :: "handle \<Rightarrow> state \<Rightarrow> state" where
  "priv_update handle s =
     (case controllers s handle of
        None \<Rightarrow> s
      | Some c \<Rightarrow>
          if isDisposed c then s
          else
            let myToken = tokenPool c + 1
            in s\<lparr>controllers := (controllers s)(handle \<mapsto> c\<lparr>tokenPool := myToken\<rparr>),
                 microtasks := microtasks s @ [UpdateContinuation handle myToken]\<rparr>)"

text \<open>The continuation of lines 89-93, with the token it captured.\<close>

fun run_microtask :: "microtask \<Rightarrow> state \<Rightarrow> state" where
  "run_microtask (UpdateContinuation handle myToken) s =
     (case controllers s handle of
        None \<Rightarrow> s
      | Some c \<Rightarrow>
          if myToken = tokenPool c
          then s\<lparr>proxy := proxy s @ [UpdateKernel handle (data c)]\<rparr>
          else s)"

text \<open>
  The end of a turn: the scheduled continuations run in the order they were scheduled.
  A continuation schedules nothing, so the queue is empty afterwards.
\<close>

fun run_all :: "microtask list \<Rightarrow> state \<Rightarrow> state" where
  "run_all [] s = s"
| "run_all (t # ts) s = run_all ts (run_microtask t s)"

definition run_microtasks :: "state \<Rightarrow> state" where
  "run_microtasks s = run_all (microtasks s) (s\<lparr>microtasks := []\<rparr>)"

section \<open>The controller object\<close>

definition write_data ::
  "handle \<Rightarrow> (closure \<Rightarrow> INotebookKernelDto2 \<Rightarrow> INotebookKernelDto2) \<Rightarrow> state \<Rightarrow> state" where
  "write_data handle f s =
     (case controllers s handle of
        None \<Rightarrow> s
      | Some c \<Rightarrow> s\<lparr>controllers := (controllers s)(handle \<mapsto> c\<lparr>data := f c (data c)\<rparr>)\<rparr>)"

definition get_label :: "closure \<Rightarrow> string" where
  "get_label c = dto_label (data c)"

definition set_label :: "handle \<Rightarrow> string nullable \<Rightarrow> state \<Rightarrow> state" where
  "set_label handle v s =
     priv_update handle
       (write_data handle
          (\<lambda>c d. d\<lparr>dto_label :=
             nullish_default (nullish_coalesce v (displayName (c_extension c)))
               (name (c_extension c))\<rparr>) s)"

definition get_detail :: "closure \<Rightarrow> string" where
  "get_detail c = nullish_default (dto_detail (data c)) ''''"

definition set_detail :: "handle \<Rightarrow> string nullable \<Rightarrow> state \<Rightarrow> state" where
  "set_detail handle v s =
     priv_update handle (write_data handle (\<lambda>c d. d\<lparr>dto_detail := v\<rparr>) s)"

definition get_description :: "closure \<Rightarrow> string" where
  "get_description c = nullish_default (dto_description (data c)) ''''"

definition set_description :: "handle \<Rightarrow> string nullable \<Rightarrow> state \<Rightarrow> state" where
  "set_description handle v s =
     priv_update handle (write_data handle (\<lambda>c d. d\<lparr>dto_description := v\<rparr>) s)"

definition get_supportedLanguages :: "closure \<Rightarrow> string list nullable" where
  "get_supportedLanguages c = dto_supportedLanguages (data c)"

definition set_supportedLanguages :: "handle \<Rightarrow> string list nullable \<Rightarrow> state \<Rightarrow> state" where
  "set_supportedLanguages handle v s =
     priv_update handle (write_data handle (\<lambda>c d. d\<lparr>dto_supportedLanguages := v\<rparr>) s)"

definition get_hasExecutionOrder :: "closure \<Rightarrow> bool" where
  "get_hasExecutionOrder c = nullish_default (dto_hasExecutionOrder (data c)) False"

definition set_hasExecutionOrder :: "handle \<Rightarrow> bool nullable \<Rightarrow> state \<Rightarrow> state" where
  "set_hasExecutionOrder handle v s =
     priv_update handle (write_data handle (\<lambda>c d. d\<lparr>dto_hasExecutionOrder := v\<rparr>) s)"

definition get_executeHandler :: "closure \<Rightarrow> NotebookExecuteHandler" where
  "get_executeHandler c = executeHandler_var c"

definition set_executeHandler :: "handle \<Rightarrow> NotebookExecuteHandler nullable \<Rightarrow> state \<Rightarrow> state" where
  "set_executeHandler handle v s =
     (case controllers s handle of
        None \<Rightarrow> s
      | Some c \<Rightarrow>
          s\<lparr>controllers := (controllers s)
              (handle \<mapsto> c\<lparr>executeHandler_var := nullish_default v
                 (DefaultExecutHandler (dto_id (data c)) (ext_identifier (c_extension c)))\<rparr>)\<rparr>)"

definition get_interruptHandler :: "closure \<Rightarrow> NotebookInterruptHandler nullable" where
  "get_interruptHandler c = interruptHandler_var c"

definition set_interruptHandler ::
  "handle \<Rightarrow> NotebookInterruptHandler nullable \<Rightarrow> state \<Rightarrow> state" where
  "set_interruptHandler handle v s =
     priv_update handle
       (write_data handle (\<lambda>c d. d\<lparr>dto_supportsInterrupt := Val (js_Boolean v)\<rparr>)
          (case controllers s handle of
             None \<Rightarrow> s
           | Some c \<Rightarrow>
               s\<lparr>controllers := (controllers s)(handle \<mapsto> c\<lparr>interruptHandler_var := v\<rparr>)\<rparr>))"

text \<open>\<^verbatim>\<open>createNotebookCellExecutionTask\<close> (lines 155-171); it reads the closure only.\<close>

definition createNotebookCellExecutionTask ::
  "env \<Rightarrow> closure \<Rightarrow> NotebookCell \<Rightarrow> error + NotebookCellExecutionTask nullable" where
  "createNotebookCellExecutionTask e c cell =
     (if index cell < 0 then Inl CellRemoved
      else if isDisposed c then Inl ControllerDisposed
      else if associatedNotebooks c (uri (notebook cell)) = None
        then Inl (NotAssociated (uri (notebook cell)))
      else
        (case getCellFromApiCell (getNotebookDocument e (uri (notebook cell))) cell of
           Val cellObj \<Rightarrow> Inr (createNotebookCellExecution e cellObj)
         | _ \<Rightarrow> Inl InvalidCell))"

text \<open>\<^verbatim>\<open>dispose\<close> (lines 172-181).\<close>

definition dispose :: "handle \<Rightarrow> state \<Rightarrow> state" where
  "dispose handle s =
     (case controllers s handle of
        None \<Rightarrow> s
      | Some c \<Rightarrow>
          if \<not> isDisposed c
          then s\<lparr>controllers := (controllers s)(handle \<mapsto>
                   c\<lparr>isDisposed := True,
                     commandDisposables_disposed := True,
                     onDidChangeSelection := (onDidChangeSelection c)\<lparr>emitter_disposed := True\<rparr>,
                     onDidReceiveMessage := (onDidReceiveMessage c)\<lparr>emitter_disposed := True\<rparr>\<rparr>),
                 kernelData := AList.delete handle (kernelData s),
                 proxy := proxy s @ [RemoveKernel handle]\<rparr>
          else s)"

text \<open>\<^verbatim>\<open>postMessage\<close> (lines 184-186); \<^verbatim>\<open>editor && f(editor)\<close> is the editor itself when it is
  null or undefined.\<close>

definition postMessage ::
  "env \<Rightarrow> handle \<Rightarrow> message \<Rightarrow> NotebookEditor nullable \<Rightarrow> state \<Rightarrow> state" where
  "postMessage e handle msg editor s =
     s\<lparr>proxy := proxy s @
        [PostMessage handle
           (case editor of
              Val ed \<Rightarrow> Val (getIdByEditor e ed)
            | Null \<Rightarrow> Null
            | Undefined \<Rightarrow> Undefined)
           msg]\<rparr>"

text \<open>\<^verbatim>\<open>updateNotebookAffinity\<close> (lines 191-193).\<close>

definition updateNotebookAffinity ::
  "handle \<Rightarrow> NotebookDocument \<Rightarrow> int nullable \<Rightarrow> state \<Rightarrow> state" where
  "updateNotebookAffinity handle nb priority s =
     s\<lparr>proxy := proxy s @ [UpdateNotebookPriority handle (uri nb) priority]\<rparr>"

section \<open>Dispatch from the main side\<close>

text \<open>
  \<^verbatim>\<open>this._kernelData.get(handle)\<close>, together with the closure behind the record's
  \<open>controller\<close> reference. Every registered record refers to a closure of the store
  (\<open>wf\<close> below), so the result is \<open>None\<close> exactly when the record is absent.
\<close>

definition kernelData_get :: "state \<Rightarrow> handle \<Rightarrow> (IKernelData \<times> closure) option" where
  "kernelData_get s handle =
     (case map_of (kernelData s) handle of
        None \<Rightarrow> None
      | Some obj \<Rightarrow>
          (case controllers s (controller obj) of
             None \<Rightarrow> None
           | Some c \<Rightarrow> Some (obj, c)))"

text \<open>Modelled from the spec: \<^verbatim>\<open>Emitter.fire\<close>, which hands an event to the emitter.\<close>

definition fire :: "'e \<Rightarrow> 'e Emitter \<Rightarrow> 'e Emitter" where
  "fire ev em = em\<lparr>fired := fired em @ [ev]\<rparr>"

text \<open>
  \<^verbatim>\<open>$acceptNotebookAssociation\<close> (lines 206-222). \<^verbatim>\<open>URI.revive\<close> rebuilds a URI from the
  transported components; the model has one type for both.
\<close>

definition acceptNotebookAssociation :: "env \<Rightarrow> handle \<Rightarrow> URI \<Rightarrow> bool \<Rightarrow> state \<Rightarrow> state" where
  "acceptNotebookAssociation e handle u v s =
     (case kernelData_get s handle of
        None \<Rightarrow> s
      | Some (obj, c) \<Rightarrow>
          let nb = getNotebookDocument e u
          in s\<lparr>controllers := (controllers s)(controller obj \<mapsto>
                 c\<lparr>associatedNotebooks :=
                      (if v then (associatedNotebooks c)(doc_uri nb \<mapsto> True)
                       else (associatedNotebooks c)(doc_uri nb := None)),
                   onDidChangeSelection :=
                      fire (SelectionEvent v (apiNotebook nb)) (onDidChangeSelection c)\<rparr>)\<rparr>)"

text \<open>The loop of lines 232-237.\<close>

fun existing_cells :: "ExtHostNotebookDocument \<Rightarrow> nat list \<Rightarrow> NotebookCell list" where
  "existing_cells document [] = []"
| "existing_cells document (cellHandle # rest) =
     (case getCell document cellHandle of
        Val cell \<Rightarrow> apiCell cell # existing_cells document rest
      | _ \<Rightarrow> existing_cells document rest)"

text \<open>Calling an execute handler: the default one warns on the console and returns.\<close>

fun call_executeHandler ::
  "NotebookExecuteHandler \<Rightarrow> NotebookCell list \<Rightarrow> NotebookDocument \<Rightarrow> handle \<Rightarrow> state
     \<Rightarrow> outcome \<times> state" where
  "call_executeHandler (DefaultExecutHandler i x) cells nb ctl s =
     (Returned, s\<lparr>console := console s @ [ConsoleWarnNoExecuteHandler i x]\<rparr>)"
| "call_executeHandler (ExtensionExecuteHandler f) cells nb ctl s = (f cells nb ctl, s)"

text \<open>
  \<^verbatim>\<open>$executeCells\<close> (lines 224-245). The result is the rejection of the returned promise,
  if any, and the state.
\<close>

definition executeCells ::
  "env \<Rightarrow> handle \<Rightarrow> URI \<Rightarrow> nat list \<Rightarrow> state \<Rightarrow> error option \<times> state" where
  "executeCells e handle u handles s =
     (case kernelData_get s handle of
        None \<Rightarrow> (None, s)
      | Some (obj, c) \<Rightarrow>
          let document = getNotebookDocument e u;
              cells = existing_cells document handles;
              h = get_executeHandler c;
              s1 = s\<lparr>calls := calls s @
                     [ExecuteHandlerCall h cells (apiNotebook document) (controller obj)]\<rparr>
          in (case call_executeHandler h cells (apiNotebook document) (controller obj) s1 of
                (Returned, s2) \<Rightarrow> (None, s2)
              | (Threw err, s2) \<Rightarrow> (None, s2\<lparr>console := console s2 @ [ConsoleError err]\<rparr>)))"

text \<open>The loop of lines 259-264.\<close>

fun cancel_cells :: "ExtHostNotebookDocument \<Rightarrow> nat list \<Rightarrow> state \<Rightarrow> state" where
  "cancel_cells document [] s = s"
| "cancel_cells document (cellHandle # rest) s =
     (case getCell document cellHandle of
        Val cell \<Rightarrow>
          cancel_cells document rest (s\<lparr>calls := calls s @ [CancelOneNotebookCellExecution cell]\<rparr>)
      | _ \<Rightarrow> cancel_cells document rest s)"

text \<open>
  \<^verbatim>\<open>$cancelCells\<close> (lines 247-265). The awaited interrupt handler is not inside a
  \<^verbatim>\<open>try\<close>: when it throws, the promise is rejected and the loop is not reached.
\<close>

definition cancelCells ::
  "env \<Rightarrow> handle \<Rightarrow> URI \<Rightarrow> nat list \<Rightarrow> state \<Rightarrow> error option \<times> state" where
  "cancelCells e handle u handles s =
     (case kernelData_get s handle of
        None \<Rightarrow> (None, s)
      | Some (obj, c) \<Rightarrow>
          let document = getNotebookDocument e u
          in (case get_interruptHandler c of
                Val f \<Rightarrow>
                  let s1 = s\<lparr>calls := calls s @
                             [InterruptHandlerCall (apiNotebook document) (controller obj)]\<rparr>
                  in (case f (apiNotebook document) of
                        Returned \<Rightarrow> (None, cancel_cells document handles s1)
                      | Threw err \<Rightarrow> (Some (HandlerThrew err), s1))
              | _ \<Rightarrow> (None, cancel_cells document handles s)))"

text \<open>\<^verbatim>\<open>$acceptKernelMessageFromRenderer\<close> (lines 267-280).\<close>

definition acceptKernelMessageFromRenderer ::
  "env \<Rightarrow> handle \<Rightarrow> string \<Rightarrow> message \<Rightarrow> state \<Rightarrow> error + state" where
  "acceptKernelMessageFromRenderer e handle editorId msg s =
     (case kernelData_get s handle of
        None \<Rightarrow> Inr s
      | Some (obj, c) \<Rightarrow>
          (case getEditorById e editorId of
             Val editor \<Rightarrow>
               Inr (s\<lparr>controllers := (controllers s)(controller obj \<mapsto>
                      c\<lparr>onDidReceiveMessage :=
                          fire (MessageEvent True (apiEditor editor) msg)
                            (onDidReceiveMessage c)\<rparr>)\<rparr>)
           | _ \<Rightarrow> Inl (UnknownEditor editorId)))"

section \<open>Sequences of setter calls\<close>

datatype setter =
    SetLabel "string nullable"
  | SetDetail "string nullable"
  | SetDescription "string nullable"
  | SetSupportedLanguages "string list nullable"
  | SetHasExecutionOrder "bool nullable"
  | SetInterruptHandler "NotebookInterruptHandler nullable"

fun call_setter :: "handle \<Rightarrow> setter \<Rightarrow> state \<Rightarrow> state" where
  "call_setter h (SetLabel v) s = set_label h v s"
| "call_setter h (SetDetail v) s = set_detail h v s"
| "call_setter h (SetDescription v) s = set_description h v s"
| "call_setter h (SetSupportedLanguages v) s = set_supportedLanguages h v s"
| "call_setter h (SetHasExecutionOrder v) s = set_hasExecutionOrder h v s"
| "call_setter h (SetInterruptHandler v) s = set_interruptHandler h v s"

fun call_setters :: "handle \<Rightarrow> setter list \<Rightarrow> state \<Rightarrow> state" where
  "call_setters h [] s = s"
| "call_setters h (x # xs) s = call_setters h xs (call_setter h x s)"

fun updateKernel_calls :: "handle \<Rightarrow> proxy_call list \<Rightarrow> INotebookKernelDto2 list" where
  "updateKernel_calls h [] = []"
| "updateKernel_calls h (UpdateKernel h' d # ps) =
     (if h' = h then d # updateKernel_calls h ps else updateKernel_calls h ps)"
| "updateKernel_calls h (p # ps) = updateKernel_calls h ps"

fun emitted :: "(handle \<rightharpoonup> closure) \<Rightarrow> microtask list \<Rightarrow> proxy_call list" where
  "emitted cs [] = []"
| "emitted cs (UpdateContinuation h t # q) =
     (case cs h of
        None \<Rightarrow> emitted cs q
      | Some c \<Rightarrow> if t = tokenPool c then UpdateKernel h (data c) # emitted cs q else emitted cs q)"

fun continuations :: "handle \<Rightarrow> nat \<Rightarrow> nat \<Rightarrow> microtask list" where
  "continuations h t 0 = []"
| "continuations h t (Suc n) = UpdateContinuation h (Suc t) # continuations h (Suc t) n"

section \<open>Well-formed registries\<close>

text \<open>
  Every record of \<^verbatim>\<open>_kernelData\<close> is stored under the handle of its own controller, and the
  closure of that controller exists.
\<close>

definition wf :: "state \<Rightarrow> bool" where
  "wf s = list_all (\<lambda>(h, d). controller d = h \<and> controllers s h \<noteq> None) (kernelData s)"

text \<open>
  Every pending continuation belongs to a controller of the store and holds a token that
  its controller has issued; the handles from \<open>handlePool\<close> on are not in use yet.
\<close>

fun token_issued :: "(handle \<rightharpoonup> closure) \<Rightarrow> microtask \<Rightarrow> bool" where
  "token_issued cs (UpdateContinuation h t) =
     (case cs h of None \<Rightarrow> False | Some c \<Rightarrow> t \<le> tokenPool c)"

definition tokens_ok :: "state \<Rightarrow> bool" where
  "tokens_ok s = list_all (token_issued (controllers s)) (microtasks s)"

definition fresh :: "state \<Rightarrow> bool" where
  "fresh s = (\<forall>a. handlePool s \<le> a \<longrightarrow> controllers s a = None)"

section \<open>Example inputs\<close>

definition ext_jupyter :: IExtensionDescription where
  "ext_jupyter = \<lparr>ext_identifier = ExtensionIdentifier ''pub.jupyter'',
     displayName = Val ''Jupyter'', name = ''jupyter'', extensionLocation = ''file:///ext''\<rparr>"

definition cell_example :: "URI \<Rightarrow> nat \<Rightarrow> ExtHostCell" where
  "cell_example u h = \<lparr>cell_handle = h, apiCell = \<lparr>index = int h, notebook = \<lparr>uri = u\<rparr>\<rparr>\<rparr>"

text \<open>A notebook with two cells, of handles 0 and 1.\<close>

definition doc_example :: "URI \<Rightarrow> ExtHostNotebookDocument" where
  "doc_example u = \<lparr>doc_uri = u, apiNotebook = \<lparr>uri = u\<rparr>,
     getCell = (\<lambda>h. if h < 2 then Val (cell_example u h) else Undefined),
     getCellFromApiCell = (\<lambda>c. if 0 \<le> index c \<and> index c < 2 \<and> uri (notebook c) = u
                              then Val (cell_example u (nat (index c))) else Undefined)\<rparr>"

definition env_example :: env where
  "env_example = \<lparr>ExtensionIdentifier_equals = (\<lambda>a b. ident_value a = ident_value b),
     NotebookKernelPreload_from = (\<lambda>p. p),
     getNotebookDocument = doc_example,
     getEditorById = (\<lambda>i. if i = ''e1'' then Val \<lparr>apiEditor = ''editor1''\<rparr> else Undefined),
     getIdByEditor = (\<lambda>ed. ''e1''),
     createNotebookCellExecution = (\<lambda>c. Val (cell_handle c))\<rparr>"

definition state_of :: "error + handle \<times> state \<Rightarrow> state" where
  "state_of r = (case r of Inr (h, s) \<Rightarrow> s | Inl x \<Rightarrow> init_state)"

text \<open>One controller \<open>k\<close> of the extension, created with an empty label: it gets handle 0.\<close>

definition s_created :: state where
  "s_created = state_of (createNotebookController env_example ext_jupyter ''k'' ''nb'' []
     Undefined Undefined init_state)"

text \<open>The remote side rejects the registration of that controller.\<close>

definition s_rejected :: state where
  "s_rejected = addKernel_rejected 0 ''duplicate'' s_created"

text \<open>The controller is associated to notebook \<open>A\<close>.\<close>

definition s_associated :: state where
  "s_associated = acceptNotebookAssociation env_example 0 ''A'' True s_created"

text \<open>The controller has an interrupt handler that throws.\<close>

definition s_interrupt_throws :: state where
  "s_interrupt_throws =
     run_microtasks (set_interruptHandler 0 (Val (\<lambda>nb. Threw ''boom'')) s_created)"

text \<open>The controller has an execute handler that throws.\<close>

definition s_execute_throws :: state where
  "s_execute_throws =
     set_executeHandler 0 (Val (ExtensionExecuteHandler (\<lambda>cells nb ctl. Threw ''boom''))) s_created"

definition closure_created :: closure where
  "closure_created = new_closure env_example ext_jupyter ''k'' ''nb'' [] Undefined Undefined"

definition setters_example :: "setter list" where
  "setters_example = [SetLabel (Val ''a''), SetDetail (Val ''d''), SetLabel Undefined]"

section \<open>Cells that resolve\<close>

text \<open>The cells of a document that a list of cell handles resolves to, in the order of the list;
  a handle without a cell contributes nothing.\<close>

definition resolved_cells :: "ExtHostNotebookDocument \<Rightarrow> nat list \<Rightarrow> ExtHostCell list" where
  "resolved_cells document handles =
     concat (map (\<lambda>cellHandle. case getCell document cellHandle of Val cell \<Rightarrow> [cell] | _ \<Rightarrow> []) handles)"

section \<open>Sequences of association events\<close>

text \<open>A sequence of \<^verbatim>\<open>$acceptNotebookAssociation\<close> calls for one handle, oldest first.\<close>

fun accept_all :: "env \<Rightarrow> handle \<Rightarrow> (URI \<times> bool) list \<Rightarrow> state \<Rightarrow> state" where
  "accept_all e h [] s = s"
| "accept_all e h ((u, v) # evs) s = accept_all e h evs (acceptNotebookAssociation e h u v s)"

text \<open>The last event of a sequence that is about a given notebook, if there is one.\<close>

fun last_event :: "env \<Rightarrow> URI \<Rightarrow> (URI \<times> bool) list \<Rightarrow> bool option" where
  "last_event e k [] = None"
| "last_event e k ((u, v) # evs) =
     (case last_event e k evs of
        Some w \<Rightarrow> Some w
      | None \<Rightarrow> if doc_uri (getNotebookDocument e u) = k then Some v else None)"

text \<open>The controller was disposed by the extension.\<close>

definition s_disposed :: state where
  "s_disposed = dispose 0 s_created"

text \<open>\<^verbatim>\<open>associatedNotebooks.has(uri)\<close> for the controller at an address.\<close>

definition associatedNotebooks_has :: "state \<Rightarrow> handle \<Rightarrow> URI \<Rightarrow> bool" where
  "associatedNotebooks_has s a k =
     (case controllers s a of None \<Rightarrow> False | Some c \<Rightarrow> associatedNotebooks c k \<noteq> None)"

text \<open>Another extension.\<close>

definition ext_other :: IExtensionDescription where
  "ext_other = \<lparr>ext_identifier = ExtensionIdentifier ''pub.other'',
     displayName = Undefined, name = ''other'', extensionLocation = ''file:///other''\<rparr>"

lemma updateKernel_calls_append:
  "updateKernel_calls h (ps @ qs) = updateKernel_calls h ps @ updateKernel_calls h qs"
  by (induction h ps rule: updateKernel_calls.induct) auto

lemma emitted_append: "emitted cs (p @ q) = emitted cs p @ emitted cs q"
  by (induction cs p rule: emitted.induct) (auto split: option.splits)

lemma run_microtask_emitted:
  "run_microtask t s = s\<lparr>proxy := proxy s @ emitted (controllers s) [t]\<rparr>"
  by (cases t) (auto split: option.splits)

lemma run_all_emitted:
  "run_all q s = s\<lparr>proxy := proxy s @ emitted (controllers s) q\<rparr>"
proof (induction q arbitrary: s)
  case Nil
  show ?case by simp
next
  case (Cons t q)
  have "emitted (controllers s) (t # q) = emitted (controllers s) [t] @ emitted (controllers s) q"
    using emitted_append [of "controllers s" "[t]" q] by simp
  then show ?case
    by (simp add: Cons.IH run_microtask_emitted del: run_microtask.simps emitted.simps)
qed

lemma call_setter_live:
  assumes "controllers s h = Some c" and "\<not> isDisposed c"
  shows "\<exists>c'. controllers (call_setter h x s) h = Some c' \<and> \<not> isDisposed c'
           \<and> tokenPool c' = tokenPool c + 1
           \<and> microtasks (call_setter h x s) = microtasks s @ [UpdateContinuation h (tokenPool c + 1)]
           \<and> proxy (call_setter h x s) = proxy s"
proof (cases x)
  case (SetLabel v)
  then show ?thesis using assms
    by (simp add: set_label_def write_data_def priv_update_def Let_def)
next
  case (SetDetail v)
  then show ?thesis using assms
    by (simp add: set_detail_def write_data_def priv_update_def Let_def)
next
  case (SetDescription v)
  then show ?thesis using assms
    by (simp add: set_description_def write_data_def priv_update_def Let_def)
next
  case (SetSupportedLanguages v)
  then show ?thesis using assms
    by (simp add: set_supportedLanguages_def write_data_def priv_update_def Let_def)
next
  case (SetHasExecutionOrder v)
  then show ?thesis using assms
    by (simp add: set_hasExecutionOrder_def write_data_def priv_update_def Let_def)
next
  case (SetInterruptHandler v)
  then show ?thesis using assms
    by (simp add: set_interruptHandler_def write_data_def priv_update_def Let_def)
qed

lemma call_setters_live:
  assumes "controllers s h = Some c" and "\<not> isDisposed c"
  shows "\<exists>c'. controllers (call_setters h xs s) h = Some c' \<and> \<not> isDisposed c'
           \<and> tokenPool c' = tokenPool c + length xs
           \<and> microtasks (call_setters h xs s) =
               microtasks s @ continuations h (tokenPool c) (length xs)
           \<and> proxy (call_setters h xs s) = proxy s"
  using assms
proof (induction xs arbitrary: s c)
  case Nil
  then show ?case by simp
next
  case (Cons x xs)
  from call_setter_live [OF Cons.prems, of x] obtain c1 where
    c1: "controllers (call_setter h x s) h = Some c1" "\<not> isDisposed c1"
        "tokenPool c1 = tokenPool c + 1"
        "microtasks (call_setter h x s) = microtasks s @ [UpdateContinuation h (tokenPool c + 1)]"
        "proxy (call_setter h x s) = proxy s"
    by blast
  from Cons.IH [OF c1(1) c1(2)] obtain c' where
    c': "controllers (call_setters h xs (call_setter h x s)) h = Some c'" "\<not> isDisposed c'"
        "tokenPool c' = tokenPool c1 + length xs"
        "microtasks (call_setters h xs (call_setter h x s)) =
           microtasks (call_setter h x s) @ continuations h (tokenPool c1) (length xs)"
        "proxy (call_setters h xs (call_setter h x s)) = proxy (call_setter h x s)"
    by blast
  have "controllers (call_setters h (x # xs) s) h = Some c'" using c'(1) by simp
  moreover have "tokenPool c' = tokenPool c + length (x # xs)" using c'(3) c1(3) by simp
  moreover have "microtasks (call_setters h (x # xs) s) =
      microtasks s @ continuations h (tokenPool c) (length (x # xs))"
    using c'(4) c1(3) c1(4) by simp
  moreover have "proxy (call_setters h (x # xs) s) = proxy s" using c'(5) c1(5) by simp
  ultimately show ?case using c'(2) by blast
qed

lemma emitted_continuations:
  assumes "cs h = Some c'" and "tokenPool c' = t + n"
  shows "emitted cs (continuations h t n) = (if n = 0 then [] else [UpdateKernel h (data c')])"
  using assms
proof (induction n arbitrary: t)
  case 0
  show ?case by simp
next
  case (Suc n)
  have "emitted cs (continuations h (Suc t) n) = (if n = 0 then [] else [UpdateKernel h (data c')])"
    using Suc.IH [of "Suc t"] Suc.prems by simp
  then show ?case using Suc.prems by simp
qed

lemma emitted_stale:
  assumes "cs h = Some c'"
    and "\<forall>t. UpdateContinuation h t \<in> set q \<longrightarrow> t < tokenPool c'"
  shows "updateKernel_calls h (emitted cs q) = []"
  using assms(2)
proof (induction q)
  case Nil
  show ?case by simp
next
  case (Cons m q)
  obtain h' t where m: "m = UpdateContinuation h' t" by (cases m)
  have rest: "updateKernel_calls h (emitted cs q) = []" using Cons by simp
  show ?case
  proof (cases "h' = h")
    case True
    then have "t < tokenPool c'" using Cons.prems m by simp
    then show ?thesis using True m rest assms(1) by simp
  next
    case False
    then show ?thesis using m rest by (simp split: option.splits)
  qed
qed

text \<open>
  Claim C1. Take a controller that is not disposed and call its metadata setters (label,
  detail, description, supportedLanguages, hasExecutionOrder, interruptHandler) one or
  more times in a row. When the scheduled continuations then run, exactly one
  \<^verbatim>\<open>$updateKernel\<close> call for this controller is added to the calls on the proxy, and it
  carries the DTO as the last setter left it. Continuations still pending from before are
  stale by then; in general a continuation whose token is not the current one changes
  nothing. With no continuation pending at the start, as at the start of a turn, that
  call is the only call added. The assumption on the pending continuations holds with
  an empty queue and in every state the operations lead to (\<open>tokens_ok\<close>, at the end of
  this theory): a pending token was issued by its controller.
\<close>

theorem C1_coalesced_update:
  assumes "controllers s h = Some c" and "\<not> isDisposed c" and "setters \<noteq> []"
    and "\<forall>t. UpdateContinuation h t \<in> set (microtasks s) \<longrightarrow> t \<le> tokenPool c"
  shows "\<exists>c'. controllers (call_setters h setters s) h = Some c'
           \<and> updateKernel_calls h (proxy (run_microtasks (call_setters h setters s))) =
               updateKernel_calls h (proxy s) @ [data c']
           \<and> (microtasks s = [] \<longrightarrow>
                 proxy (run_microtasks (call_setters h setters s)) =
                   proxy s @ [UpdateKernel h (data c')])
           \<and> (\<forall>st cl t. controllers st h = Some cl \<and> t \<noteq> tokenPool cl \<longrightarrow>
                 run_microtask (UpdateContinuation h t) st = st)"
proof -
  let ?s1 = "call_setters h setters s"
  from call_setters_live [OF assms(1) assms(2), of setters] obtain c' where
    c': "controllers ?s1 h = Some c'" "tokenPool c' = tokenPool c + length setters"
        "microtasks ?s1 = microtasks s @ continuations h (tokenPool c) (length setters)"
        "proxy ?s1 = proxy s"
    by blast
  have n: "length setters \<noteq> 0" using assms(3) by simp
  have run: "proxy (run_microtasks ?s1) =
      proxy s @ emitted (controllers ?s1) (microtasks s)
        @ emitted (controllers ?s1) (continuations h (tokenPool c) (length setters))"
    by (simp add: run_microtasks_def run_all_emitted c'(3) c'(4) emitted_append)
  have new: "emitted (controllers ?s1) (continuations h (tokenPool c) (length setters)) =
      [UpdateKernel h (data c')]"
    using emitted_continuations [of "controllers ?s1" h c' "tokenPool c" "length setters"] c'(1) c'(2) n
    by simp
  have pos: "0 < length setters" using assms(3) by simp
  have "\<forall>t. UpdateContinuation h t \<in> set (microtasks s) \<longrightarrow> t < tokenPool c'"
  proof (intro allI impI)
    fix t
    assume "UpdateContinuation h t \<in> set (microtasks s)"
    then have "t \<le> tokenPool c" using assms(4) by blast
    then show "t < tokenPool c'" using c'(2) pos by linarith
  qed
  then have old: "updateKernel_calls h (emitted (controllers ?s1) (microtasks s)) = []"
    using emitted_stale [of "controllers ?s1" h c' "microtasks s"] c'(1) by simp
  have a: "updateKernel_calls h (proxy (run_microtasks ?s1)) =
      updateKernel_calls h (proxy s) @ [data c']"
    by (simp add: run new old updateKernel_calls_append)
  have b: "microtasks s = [] \<longrightarrow>
      proxy (run_microtasks ?s1) = proxy s @ [UpdateKernel h (data c')]"
    by (simp add: run new)
  have d: "\<forall>st cl t. controllers st h = Some cl \<and> t \<noteq> tokenPool cl \<longrightarrow>
      run_microtask (UpdateContinuation h t) st = st"
    by simp
  show ?thesis using c'(1) a b d by blast
qed


text \<open>The example state, evaluated.\<close>

lemma s_created_eq:
  "s_created = \<lparr>kernelData = [(0, \<lparr>extensionId = ExtensionIdentifier ''pub.jupyter'', controller = 0\<rparr>)],
     handlePool = 1, controllers = [0 \<mapsto> closure_created], microtasks = [],
     proxy = [AddKernel 0 (data closure_created)], console = [], calls = []\<rparr>"
  by (simp add: s_created_def state_of_def createNotebookController_def init_state_def
      closure_created_def ext_jupyter_def Let_def)

theorem C1_coalesced_update_witness:
  "controllers s_created 0 = Some closure_created \<and> \<not> isDisposed closure_created
   \<and> setters_example \<noteq> []
   \<and> updateKernel_calls 0 (proxy (run_microtasks (call_setters 0 setters_example s_created))) =
       [(data closure_created)\<lparr>dto_label := ''Jupyter'', dto_detail := Val ''d''\<rparr>]
   \<and> proxy (run_microtasks (call_setters 0 setters_example s_created)) =
       [AddKernel 0 (data closure_created),
        UpdateKernel 0 ((data closure_created)\<lparr>dto_label := ''Jupyter'', dto_detail := Val ''d''\<rparr>)]"
proof -
  have h1: "controllers s_created 0 = Some closure_created" by (simp add: s_created_eq)
  have h2: "\<not> isDisposed closure_created" by (simp add: closure_created_def new_closure_def)
  have h3: "setters_example \<noteq> []" by (simp add: setters_example_def)
  have h4: "\<forall>t. UpdateContinuation 0 t \<in> set (microtasks s_created) \<longrightarrow> t \<le> tokenPool closure_created"
    by (simp add: s_created_eq)
  have q: "microtasks s_created = []" by (simp add: s_created_eq)
  have p: "proxy s_created = [AddKernel 0 (data closure_created)]" by (simp add: s_created_eq)
  have u: "updateKernel_calls 0 (proxy s_created) = []" by (simp add: p)
  have d: "map_option data (controllers (call_setters 0 setters_example s_created) 0) =
      Some ((data closure_created)\<lparr>dto_label := ''Jupyter'', dto_detail := Val ''d''\<rparr>)"
    by (simp add: s_created_eq setters_example_def set_label_def set_detail_def write_data_def
        priv_update_def Let_def closure_created_def new_closure_def ext_jupyter_def)
  from C1_coalesced_update [OF h1 h2 h3 h4] obtain c' where
    c': "controllers (call_setters 0 setters_example s_created) 0 = Some c'"
        "updateKernel_calls 0 (proxy (run_microtasks (call_setters 0 setters_example s_created))) =
           updateKernel_calls 0 (proxy s_created) @ [data c']"
        "microtasks s_created = [] \<longrightarrow>
           proxy (run_microtasks (call_setters 0 setters_example s_created)) =
             proxy s_created @ [UpdateKernel 0 (data c')]"
    by blast
  have "data c' = (data closure_created)\<lparr>dto_label := ''Jupyter'', dto_detail := Val ''d''\<rparr>"
    using d c'(1) by simp
  then show ?thesis using h1 h2 h3 c'(2) c'(3) q p u by simp
qed

section \<open>Creation\<close>

lemma createNotebookController_Inr:
  assumes "createNotebookController e extension i vt l hdl pl s = Inr (h, s')"
  shows "h = handlePool s"
    and "\<not> already_exists e s extension i (kernelData s)"
    and "s' = s\<lparr>handlePool := handlePool s + 1,
               proxy := proxy s @ [AddKernel h (data (new_closure e extension i vt l hdl pl))],
               controllers := (controllers s)(h \<mapsto> new_closure e extension i vt l hdl pl),
               kernelData := AList.update h
                  \<lparr>extensionId = ext_identifier extension, controller = h\<rparr> (kernelData s)\<rparr>"
  using assms by (auto simp: createNotebookController_def Let_def split: if_splits)

text \<open>
  Claim C9, as amended. When the label given to \<^verbatim>\<open>createNotebookController\<close> is empty, the
  label stored in the DTO, and pushed to the remote side with \<^verbatim>\<open>$addKernel\<close>, is the value
  of the extension's identifier (\<^verbatim>\<open>extension.identifier.value\<close>); a non-empty label is
  stored as given.
\<close>

theorem C9_label_default:
  assumes "createNotebookController e extension i vt l hdl pl s = Inr (h, s')"
  shows "\<exists>c. controllers s' h = Some c
           \<and> get_label c = (if l = [] then ident_value (ext_identifier extension) else l)
           \<and> proxy s' = proxy s @ [AddKernel h (data c)]"
  using createNotebookController_Inr(3) [OF assms]
  by (simp add: get_label_def new_closure_def new_data_def or_string_def)

theorem C9_label_default_witness:
  "createNotebookController env_example ext_jupyter ''k'' ''nb'' [] Undefined Undefined init_state
     = Inr (0, s_created)
   \<and> map_option get_label (controllers s_created 0) = Some ''pub.jupyter''
   \<and> proxy s_created = [AddKernel 0 (data closure_created)]"
proof -
  have c: "createNotebookController env_example ext_jupyter ''k'' ''nb'' [] Undefined Undefined
      init_state = Inr (0, s_created)"
    by (simp add: s_created_def state_of_def createNotebookController_def init_state_def Let_def)
  from C9_label_default [OF c] obtain c' where
    c': "controllers s_created 0 = Some c'"
        "get_label c' = (if ([]::string) = [] then ident_value (ext_identifier ext_jupyter) else [])"
    by blast
  have "get_label c' = ''pub.jupyter''" using c'(2) by (simp add: ext_jupyter_def)
  then show ?thesis using c c'(1) by (simp add: s_created_eq)
qed

text \<open>
  Claim C9 as stated fails: the extension of the example has the display name
  \<open>Jupyter\<close> and the name \<open>jupyter\<close>, and a controller created with an empty label gets the
  label \<open>pub.jupyter\<close>, the value of the extension's identifier.
\<close>

theorem C9_counterexample:
  "map_option get_label (controllers s_created 0) = Some ''pub.jupyter''
   \<and> displayName ext_jupyter = Val ''Jupyter'' \<and> name ext_jupyter = ''jupyter''
   \<and> nullish_default (displayName ext_jupyter) (name ext_jupyter) = ''Jupyter''"
  by (simp add: s_created_eq get_label_def closure_created_def new_closure_def new_data_def
      or_string_def ext_jupyter_def)

section \<open>The execute handler\<close>

text \<open>
  Claim C10. The \<^verbatim>\<open>executeHandler\<close> getter returns a handler, never null or undefined (its
  result is of the type of handlers): when no handler, or null, is given at creation, and
  when the setter is given null or undefined, the handler in place is the default
  handler; a handler that is given is kept. Calling the default handler only writes a
  warning to the console and returns.
\<close>

theorem C10_executeHandler_default:
  "(createNotebookController e extension i vt l hdl pl s = Inr (h, s') \<longrightarrow>
      (\<exists>c. controllers s' h = Some c
         \<and> (hdl = Undefined \<or> hdl = Null \<longrightarrow>
               get_executeHandler c = DefaultExecutHandler (dto_id (data c)) (ext_identifier extension))
         \<and> (\<forall>f. hdl = Val f \<longrightarrow> get_executeHandler c = f)))
   \<and> (controllers s2 h2 = Some c0 \<longrightarrow>
      (\<exists>c. controllers (set_executeHandler h2 v s2) h2 = Some c
         \<and> (v = Undefined \<or> v = Null \<longrightarrow>
               get_executeHandler c = DefaultExecutHandler (dto_id (data c)) (ext_identifier (c_extension c)))
         \<and> (\<forall>f. v = Val f \<longrightarrow> get_executeHandler c = f)))
   \<and> call_executeHandler (DefaultExecutHandler j x) cells nb ctl st =
       (Returned, st\<lparr>console := console st @ [ConsoleWarnNoExecuteHandler j x]\<rparr>)"
proof -
  have a: "createNotebookController e extension i vt l hdl pl s = Inr (h, s') \<longrightarrow>
      (\<exists>c. controllers s' h = Some c
         \<and> (hdl = Undefined \<or> hdl = Null \<longrightarrow>
               get_executeHandler c = DefaultExecutHandler (dto_id (data c)) (ext_identifier extension))
         \<and> (\<forall>f. hdl = Val f \<longrightarrow> get_executeHandler c = f))"
  proof
    assume r: "createNotebookController e extension i vt l hdl pl s = Inr (h, s')"
    show "\<exists>c. controllers s' h = Some c
         \<and> (hdl = Undefined \<or> hdl = Null \<longrightarrow>
               get_executeHandler c = DefaultExecutHandler (dto_id (data c)) (ext_identifier extension))
         \<and> (\<forall>f. hdl = Val f \<longrightarrow> get_executeHandler c = f)"
      using createNotebookController_Inr(3) [OF r]
      by (cases hdl) (auto simp: get_executeHandler_def new_closure_def new_data_def)
  qed
  have b: "controllers s2 h2 = Some c0 \<longrightarrow>
      (\<exists>c. controllers (set_executeHandler h2 v s2) h2 = Some c
         \<and> (v = Undefined \<or> v = Null \<longrightarrow>
               get_executeHandler c = DefaultExecutHandler (dto_id (data c)) (ext_identifier (c_extension c)))
         \<and> (\<forall>f. v = Val f \<longrightarrow> get_executeHandler c = f))"
    by (cases v) (auto simp: set_executeHandler_def get_executeHandler_def)
  show ?thesis using a b by simp
qed

theorem C10_executeHandler_default_witness:
  "createNotebookController env_example ext_jupyter ''k'' ''nb'' [] Undefined Undefined init_state
     = Inr (0, s_created)
   \<and> map_option get_executeHandler (controllers s_created 0) =
       Some (DefaultExecutHandler ''pub.jupyter/k'' (ExtensionIdentifier ''pub.jupyter''))
   \<and> map_option get_executeHandler (controllers (set_executeHandler 0 Null s_execute_throws) 0) =
       Some (DefaultExecutHandler ''pub.jupyter/k'' (ExtensionIdentifier ''pub.jupyter''))"
proof -
  have c: "createNotebookController env_example ext_jupyter ''k'' ''nb'' [] Undefined Undefined
      init_state = Inr (0, s_created)"
    by (simp add: s_created_def state_of_def createNotebookController_def init_state_def Let_def)
  have t: "controllers s_execute_throws 0 = Some (closure_created\<lparr>executeHandler_var :=
      ExtensionExecuteHandler (\<lambda>cells nb ctl. Threw ''boom'')\<rparr>)"
    by (simp add: s_execute_throws_def s_created_eq set_executeHandler_def)
  note inst = C10_executeHandler_default [where e = env_example and extension = ext_jupyter
      and i = "''k''" and vt = "''nb''" and l = "[]" and hdl = Undefined and pl = Undefined
      and s = init_state and h = 0 and s' = s_created and ?s2.0 = s_execute_throws and ?h2.0 = 0
      and v = Null]
  from inst c obtain c1 where
    c1: "controllers s_created 0 = Some c1"
        "get_executeHandler c1 = DefaultExecutHandler (dto_id (data c1)) (ext_identifier ext_jupyter)"
    by blast
  from inst t obtain c2 where
    c2: "controllers (set_executeHandler 0 Null s_execute_throws) 0 = Some c2"
        "get_executeHandler c2 = DefaultExecutHandler (dto_id (data c2)) (ext_identifier (c_extension c2))"
    by blast
  have e1: "c1 = closure_created" using c1(1) by (simp add: s_created_eq)
  have d1: "dto_id (data c1) = ''pub.jupyter/k''"
    unfolding e1 by (simp add: closure_created_def new_closure_def new_data_def ext_jupyter_def)
  have e2: "c2 = closure_created\<lparr>executeHandler_var :=
      DefaultExecutHandler (dto_id (data closure_created)) (ext_identifier (c_extension closure_created))\<rparr>"
    using c2(1) t by (simp add: set_executeHandler_def)
  have d2: "dto_id (data c2) = ''pub.jupyter/k'' \<and> c_extension c2 = ext_jupyter"
    unfolding e2 by (simp add: closure_created_def new_closure_def new_data_def ext_jupyter_def)
  show ?thesis using c c1 c2 d1 d2 by (simp add: ext_jupyter_def)
qed

section \<open>Cell execution tasks\<close>

text \<open>
  Claim C4. \<^verbatim>\<open>createNotebookCellExecutionTask\<close> fails exactly when one of four preconditions
  is violated: the cell was removed (its index is negative), the controller is disposed,
  the notebook of the cell is not among the associated notebooks, or the document model
  does not resolve the cell. The checks are made in this order and each has an error of
  its own, with a message of its own: a violation on its own is reported by its error.
  With no violation the call returns what the execution-task collaborator returns for
  the resolved cell.
\<close>

theorem C4_createNotebookCellExecutionTask:
  "(createNotebookCellExecutionTask e c cell = Inl CellRemoved \<longleftrightarrow> index cell < 0)
   \<and> (createNotebookCellExecutionTask e c cell = Inl ControllerDisposed \<longleftrightarrow>
        0 \<le> index cell \<and> isDisposed c)
   \<and> (createNotebookCellExecutionTask e c cell = Inl (NotAssociated (uri (notebook cell))) \<longleftrightarrow>
        0 \<le> index cell \<and> \<not> isDisposed c \<and> associatedNotebooks c (uri (notebook cell)) = None)
   \<and> (createNotebookCellExecutionTask e c cell = Inl InvalidCell \<longleftrightarrow>
        0 \<le> index cell \<and> \<not> isDisposed c \<and> associatedNotebooks c (uri (notebook cell)) \<noteq> None
        \<and> \<not> js_Boolean (getCellFromApiCell (getNotebookDocument e (uri (notebook cell))) cell))
   \<and> (\<forall>cellObj. 0 \<le> index cell \<and> \<not> isDisposed c
        \<and> associatedNotebooks c (uri (notebook cell)) \<noteq> None
        \<and> getCellFromApiCell (getNotebookDocument e (uri (notebook cell))) cell = Val cellObj \<longrightarrow>
        createNotebookCellExecutionTask e c cell = Inr (createNotebookCellExecution e cellObj))
   \<and> (isl (createNotebookCellExecutionTask e c cell) \<longleftrightarrow>
        index cell < 0 \<or> isDisposed c \<or> associatedNotebooks c (uri (notebook cell)) = None
        \<or> \<not> js_Boolean (getCellFromApiCell (getNotebookDocument e (uri (notebook cell))) cell))
   \<and> distinct [error_message CellRemoved, error_message ControllerDisposed,
        error_message (NotAssociated u), error_message InvalidCell]"
proof -
  let ?r = "createNotebookCellExecutionTask e c cell"
  let ?g = "getCellFromApiCell (getNotebookDocument e (uri (notebook cell))) cell"
  have 1: "?r = Inl CellRemoved \<longleftrightarrow> index cell < 0"
    by (cases ?g) (auto simp: createNotebookCellExecutionTask_def)
  have 2: "?r = Inl ControllerDisposed \<longleftrightarrow> 0 \<le> index cell \<and> isDisposed c"
    by (cases ?g) (auto simp: createNotebookCellExecutionTask_def)
  have 3: "?r = Inl (NotAssociated (uri (notebook cell))) \<longleftrightarrow>
        0 \<le> index cell \<and> \<not> isDisposed c \<and> associatedNotebooks c (uri (notebook cell)) = None"
    by (cases ?g) (auto simp: createNotebookCellExecutionTask_def)
  have 4: "?r = Inl InvalidCell \<longleftrightarrow>
        0 \<le> index cell \<and> \<not> isDisposed c \<and> associatedNotebooks c (uri (notebook cell)) \<noteq> None
        \<and> \<not> js_Boolean ?g"
    by (cases ?g) (auto simp: createNotebookCellExecutionTask_def)
  have 5: "\<forall>cellObj. 0 \<le> index cell \<and> \<not> isDisposed c
        \<and> associatedNotebooks c (uri (notebook cell)) \<noteq> None \<and> ?g = Val cellObj \<longrightarrow>
        ?r = Inr (createNotebookCellExecution e cellObj)"
    by (auto simp: createNotebookCellExecutionTask_def)
  have 6: "isl ?r \<longleftrightarrow>
        index cell < 0 \<or> isDisposed c \<or> associatedNotebooks c (uri (notebook cell)) = None
        \<or> \<not> js_Boolean ?g"
    by (cases ?g) (auto simp: createNotebookCellExecutionTask_def)
  have 7: "distinct [error_message CellRemoved, error_message ControllerDisposed,
        error_message (NotAssociated u), error_message InvalidCell]"
    by simp
  show ?thesis using 1 2 3 4 5 6 7 by blast
qed

theorem C4_createNotebookCellExecutionTask_witness:
  "createNotebookCellExecutionTask env_example
      (closure_created\<lparr>associatedNotebooks := [''A'' \<mapsto> True]\<rparr>) (apiCell (cell_example ''A'' 1))
     = Inr (Val 1)
   \<and> createNotebookCellExecutionTask env_example
      (closure_created\<lparr>associatedNotebooks := [''A'' \<mapsto> True]\<rparr>)
      ((apiCell (cell_example ''A'' 1))\<lparr>index := - 1\<rparr>) = Inl CellRemoved
   \<and> createNotebookCellExecutionTask env_example
      (closure_created\<lparr>associatedNotebooks := [''A'' \<mapsto> True], isDisposed := True\<rparr>)
      (apiCell (cell_example ''A'' 1)) = Inl ControllerDisposed
   \<and> createNotebookCellExecutionTask env_example closure_created (apiCell (cell_example ''A'' 1))
     = Inl (NotAssociated ''A'')
   \<and> createNotebookCellExecutionTask env_example
      (closure_created\<lparr>associatedNotebooks := [''A'' \<mapsto> True]\<rparr>) (apiCell (cell_example ''A'' 5))
     = Inl InvalidCell"
proof -
  let ?c = "closure_created\<lparr>associatedNotebooks := [''A'' \<mapsto> True]\<rparr>"
  let ?cell = "apiCell (cell_example ''A'' 1)"
  have nd: "\<not> isDisposed closure_created" by (simp add: closure_created_def new_closure_def)
  have na: "associatedNotebooks closure_created = Map.empty"
    by (simp add: closure_created_def new_closure_def)
  have g: "getCellFromApiCell (getNotebookDocument env_example (uri (notebook ?cell))) ?cell =
      Val (cell_example ''A'' 1)"
    by (simp add: env_example_def doc_example_def cell_example_def)
  have g5: "getCellFromApiCell (getNotebookDocument env_example ''A'') (apiCell (cell_example ''A'' 5)) =
      Undefined"
    by (simp add: env_example_def doc_example_def cell_example_def)
  have x: "createNotebookCellExecution env_example (cell_example ''A'' 1) = Val 1"
    by (simp add: env_example_def cell_example_def)
  have i: "index ?cell = 1" "uri (notebook ?cell) = ''A''"
      "index (apiCell (cell_example ''A'' 5)) = 5" "uri (notebook (apiCell (cell_example ''A'' 5))) = ''A''"
    by (simp_all add: cell_example_def)
  have a: "createNotebookCellExecutionTask env_example ?c ?cell = Inr (Val 1)"
  proof -
    have "\<forall>cellObj. 0 \<le> index ?cell \<and> \<not> isDisposed ?c
        \<and> associatedNotebooks ?c (uri (notebook ?cell)) \<noteq> None
        \<and> getCellFromApiCell (getNotebookDocument env_example (uri (notebook ?cell))) ?cell = Val cellObj \<longrightarrow>
        createNotebookCellExecutionTask env_example ?c ?cell = Inr (createNotebookCellExecution env_example cellObj)"
      using C4_createNotebookCellExecutionTask [of env_example ?c ?cell "''A''"] by blast
    then have "0 \<le> index ?cell \<and> \<not> isDisposed ?c
        \<and> associatedNotebooks ?c (uri (notebook ?cell)) \<noteq> None
        \<and> getCellFromApiCell (getNotebookDocument env_example (uri (notebook ?cell))) ?cell =
            Val (cell_example ''A'' 1) \<longrightarrow>
        createNotebookCellExecutionTask env_example ?c ?cell =
          Inr (createNotebookCellExecution env_example (cell_example ''A'' 1))"
      by (rule spec)
    then show ?thesis using nd g x i by auto
  qed
  have b: "createNotebookCellExecutionTask env_example ?c (?cell\<lparr>index := - 1\<rparr>) = Inl CellRemoved"
    using C4_createNotebookCellExecutionTask [of env_example ?c "?cell\<lparr>index := - 1\<rparr>" "''A''"]
    by simp
  have c: "createNotebookCellExecutionTask env_example (?c\<lparr>isDisposed := True\<rparr>) ?cell =
      Inl ControllerDisposed"
    using C4_createNotebookCellExecutionTask [of env_example "?c\<lparr>isDisposed := True\<rparr>" ?cell "''A''"] i
    by simp
  have d: "createNotebookCellExecutionTask env_example closure_created ?cell = Inl (NotAssociated ''A'')"
    using C4_createNotebookCellExecutionTask [of env_example closure_created ?cell "''A''"] nd na i
    by simp
  have f: "createNotebookCellExecutionTask env_example ?c (apiCell (cell_example ''A'' 5)) =
      Inl InvalidCell"
    using C4_createNotebookCellExecutionTask [of env_example ?c "apiCell (cell_example ''A'' 5)" "''A''"]
      nd g5 i by simp
  show ?thesis using a b c d f by simp
qed

section \<open>Dispatch\<close>

lemma kernelData_get_absent:
  "map_of (kernelData s) h = None \<Longrightarrow> kernelData_get s h = None"
  by (simp add: kernelData_get_def)

lemma kernelData_get_SomeD:
  "kernelData_get s h = Some (obj, c) \<Longrightarrow>
     map_of (kernelData s) h = Some obj \<and> controllers s (controller obj) = Some c"
  by (auto simp: kernelData_get_def split: option.splits)

lemma existing_cells_resolved:
  "existing_cells document handles = map apiCell (resolved_cells document handles)"
  by (induction handles) (auto simp: resolved_cells_def split: nullable.splits)

lemma cancel_cells_resolved:
  "cancel_cells document handles s =
     s\<lparr>calls := calls s @ map CancelOneNotebookCellExecution (resolved_cells document handles)\<rparr>"
  by (induction handles arbitrary: s) (auto simp: resolved_cells_def split: nullable.splits)

lemma length_resolved_cells:
  "length (resolved_cells document handles) =
     length (filter (\<lambda>cellHandle. js_Boolean (getCell document cellHandle)) handles)"
  by (induction handles) (auto simp: resolved_cells_def split: nullable.splits)

text \<open>
  Claim C5. The promise of \<^verbatim>\<open>$executeCells\<close> is never rejected. For a handle without a
  record the call changes nothing. For a registered handle the current execute handler
  is called once, with the cells the cell handles resolve to (a handle without a cell is
  skipped), the notebook and the controller. When the handler throws, the error is
  written to the console and nothing else changes: the registry, the closures, the
  queue and the calls on the proxy are as they were.
\<close>

theorem C5_executeCells:
  "fst (executeCells e h u handles s) = None
   \<and> (map_of (kernelData s) h = None \<longrightarrow> executeCells e h u handles s = (None, s))
   \<and> (kernelData_get s h = Some (obj, c) \<longrightarrow>
        calls (snd (executeCells e h u handles s)) =
          calls s @ [ExecuteHandlerCall (get_executeHandler c)
             (map apiCell (resolved_cells (getNotebookDocument e u) handles))
             (apiNotebook (getNotebookDocument e u)) (controller obj)]
        \<and> (\<forall>f x. get_executeHandler c = ExtensionExecuteHandler f
             \<and> f (map apiCell (resolved_cells (getNotebookDocument e u) handles))
                  (apiNotebook (getNotebookDocument e u)) (controller obj) = Threw x \<longrightarrow>
             snd (executeCells e h u handles s) =
               s\<lparr>calls := calls s @ [ExecuteHandlerCall (get_executeHandler c)
                      (map apiCell (resolved_cells (getNotebookDocument e u) handles))
                      (apiNotebook (getNotebookDocument e u)) (controller obj)],
                 console := console s @ [ConsoleError x]\<rparr>))"
proof -
  let ?cells = "map apiCell (resolved_cells (getNotebookDocument e u) handles)"
  let ?nb = "apiNotebook (getNotebookDocument e u)"
  have a: "fst (executeCells e h u handles s) = None"
    by (auto simp: executeCells_def Let_def split: option.splits prod.splits outcome.splits)
  have b: "map_of (kernelData s) h = None \<longrightarrow> executeCells e h u handles s = (None, s)"
    by (simp add: executeCells_def kernelData_get_absent)
  have c: "kernelData_get s h = Some (obj, c) \<longrightarrow>
        calls (snd (executeCells e h u handles s)) =
          calls s @ [ExecuteHandlerCall (get_executeHandler c) ?cells ?nb (controller obj)]"
  proof
    assume g: "kernelData_get s h = Some (obj, c)"
    show "calls (snd (executeCells e h u handles s)) =
          calls s @ [ExecuteHandlerCall (get_executeHandler c) ?cells ?nb (controller obj)]"
    proof (cases "get_executeHandler c")
      case (DefaultExecutHandler j x)
      then show ?thesis using g
        by (simp add: executeCells_def Let_def existing_cells_resolved)
    next
      case (ExtensionExecuteHandler f)
      then show ?thesis using g
        by (cases "f ?cells ?nb (controller obj)")
           (simp_all add: executeCells_def Let_def existing_cells_resolved)
    qed
  qed
  have d: "kernelData_get s h = Some (obj, c) \<longrightarrow>
        (\<forall>f x. get_executeHandler c = ExtensionExecuteHandler f
             \<and> f ?cells ?nb (controller obj) = Threw x \<longrightarrow>
             snd (executeCells e h u handles s) =
               s\<lparr>calls := calls s @ [ExecuteHandlerCall (get_executeHandler c) ?cells ?nb (controller obj)],
                 console := console s @ [ConsoleError x]\<rparr>)"
    by (simp add: executeCells_def Let_def existing_cells_resolved)
  show ?thesis using a b c d by blast
qed

text \<open>The state with the throwing execute handler, evaluated.\<close>

lemma s_execute_throws_eq:
  "s_execute_throws = s_created\<lparr>controllers := [0 \<mapsto> closure_created\<lparr>executeHandler_var :=
      ExtensionExecuteHandler (\<lambda>cells nb ctl. Threw ''boom'')\<rparr>]\<rparr>"
  by (simp add: s_execute_throws_def s_created_eq set_executeHandler_def)

theorem C5_executeCells_witness:
  "executeCells env_example 0 ''A'' [0, 7, 1] s_execute_throws =
     (None, s_execute_throws\<lparr>calls :=
        [ExecuteHandlerCall (ExtensionExecuteHandler (\<lambda>cells nb ctl. Threw ''boom''))
           [apiCell (cell_example ''A'' 0), apiCell (cell_example ''A'' 1)] \<lparr>uri = ''A''\<rparr> 0],
        console := [ConsoleError ''boom'']\<rparr>)
   \<and> executeCells env_example 3 ''A'' [0, 7, 1] s_execute_throws = (None, s_execute_throws)"
proof -
  let ?c = "closure_created\<lparr>executeHandler_var :=
      ExtensionExecuteHandler (\<lambda>cells nb ctl. Threw ''boom'')\<rparr>"
  let ?obj = "\<lparr>extensionId = ExtensionIdentifier ''pub.jupyter'', controller = 0\<rparr>"
  have g: "kernelData_get s_execute_throws 0 = Some (?obj, ?c)"
    by (simp add: kernelData_get_def s_execute_throws_eq s_created_eq)
  have n: "map_of (kernelData s_execute_throws) 3 = None"
    by (simp add: s_execute_throws_eq s_created_eq)
  have r: "resolved_cells (getNotebookDocument env_example ''A'') [0, 7, 1] =
      [cell_example ''A'' 0, cell_example ''A'' 1]"
    by (simp add: resolved_cells_def env_example_def doc_example_def)
  have nb: "apiNotebook (getNotebookDocument env_example ''A'') = \<lparr>uri = ''A''\<rparr>"
    by (simp add: env_example_def doc_example_def)
  have k: "calls s_execute_throws = [] \<and> console s_execute_throws = []"
    by (simp add: s_execute_throws_eq s_created_eq)
  have hd: "get_executeHandler ?c = ExtensionExecuteHandler (\<lambda>cells nb ctl. Threw ''boom'')"
    by (simp add: get_executeHandler_def)
  note inst = C5_executeCells [of env_example 0 "''A''" "[0, 7, 1]" s_execute_throws ?obj ?c]
  have f: "fst (executeCells env_example 0 ''A'' [0, 7, 1] s_execute_throws) = None"
    using inst by blast
  have "snd (executeCells env_example 0 ''A'' [0, 7, 1] s_execute_throws) =
      s_execute_throws\<lparr>calls := calls s_execute_throws @
           [ExecuteHandlerCall (get_executeHandler ?c)
              (map apiCell (resolved_cells (getNotebookDocument env_example ''A'') [0, 7, 1]))
              (apiNotebook (getNotebookDocument env_example ''A'')) (controller ?obj)],
        console := console s_execute_throws @ [ConsoleError ''boom'']\<rparr>"
    using inst g hd by blast
  then have s: "snd (executeCells env_example 0 ''A'' [0, 7, 1] s_execute_throws) =
      s_execute_throws\<lparr>calls :=
        [ExecuteHandlerCall (ExtensionExecuteHandler (\<lambda>cells nb ctl. Threw ''boom''))
           [apiCell (cell_example ''A'' 0), apiCell (cell_example ''A'' 1)] \<lparr>uri = ''A''\<rparr> 0],
        console := [ConsoleError ''boom'']\<rparr>"
    using r nb k hd by simp
  have a: "executeCells env_example 3 ''A'' [0, 7, 1] s_execute_throws = (None, s_execute_throws)"
    using C5_executeCells [of env_example 3 "''A''" "[0, 7, 1]" s_execute_throws] n by blast
  show ?thesis using f s a by (simp add: prod_eq_iff)
qed

text \<open>
  Claim C7, as amended. For a handle without a record, also the handle of a disposed
  controller, \<^verbatim>\<open>$acceptKernelMessageFromRenderer\<close> changes nothing and raises nothing,
  whatever the editor id (lines 269-272 return before the editor is looked up). For a
  registered handle it raises the unknown-editor error exactly when the editor id does
  not resolve, and otherwise fires the message emitter once, with the frozen pair of the
  editor and the message.
\<close>

theorem C7_acceptKernelMessageFromRenderer:
  "(map_of (kernelData s) h = None \<longrightarrow> acceptKernelMessageFromRenderer e h editorId m s = Inr s)
   \<and> (kernelData_get s h = Some (obj, c) \<longrightarrow>
        (isl (acceptKernelMessageFromRenderer e h editorId m s) \<longleftrightarrow>
           \<not> js_Boolean (getEditorById e editorId))
        \<and> (\<not> js_Boolean (getEditorById e editorId) \<longrightarrow>
             acceptKernelMessageFromRenderer e h editorId m s = Inl (UnknownEditor editorId))
        \<and> (\<forall>editor. getEditorById e editorId = Val editor \<longrightarrow>
             acceptKernelMessageFromRenderer e h editorId m s =
               Inr (s\<lparr>controllers := (controllers s)(controller obj \<mapsto>
                      c\<lparr>onDidReceiveMessage := (onDidReceiveMessage c)\<lparr>fired :=
                           fired (onDidReceiveMessage c) @
                             [MessageEvent True (apiEditor editor) m]\<rparr>\<rparr>)\<rparr>)))"
proof -
  have a: "map_of (kernelData s) h = None \<longrightarrow>
      acceptKernelMessageFromRenderer e h editorId m s = Inr s"
    by (simp add: acceptKernelMessageFromRenderer_def kernelData_get_absent)
  have b: "kernelData_get s h = Some (obj, c) \<longrightarrow>
        (isl (acceptKernelMessageFromRenderer e h editorId m s) \<longleftrightarrow>
           \<not> js_Boolean (getEditorById e editorId))
        \<and> (\<not> js_Boolean (getEditorById e editorId) \<longrightarrow>
             acceptKernelMessageFromRenderer e h editorId m s = Inl (UnknownEditor editorId))"
    by (cases "getEditorById e editorId") (simp_all add: acceptKernelMessageFromRenderer_def)
  have c: "kernelData_get s h = Some (obj, c) \<longrightarrow>
        (\<forall>editor. getEditorById e editorId = Val editor \<longrightarrow>
             acceptKernelMessageFromRenderer e h editorId m s =
               Inr (s\<lparr>controllers := (controllers s)(controller obj \<mapsto>
                      c\<lparr>onDidReceiveMessage := (onDidReceiveMessage c)\<lparr>fired :=
                           fired (onDidReceiveMessage c) @
                             [MessageEvent True (apiEditor editor) m]\<rparr>\<rparr>)\<rparr>))"
    by (simp add: acceptKernelMessageFromRenderer_def fire_def)
  show ?thesis using a b c by blast
qed

text \<open>The state after the disposal, evaluated.\<close>

lemma s_disposed_eq:
  "s_disposed = s_created\<lparr>kernelData := [],
     controllers := [0 \<mapsto> closure_created\<lparr>isDisposed := True, commandDisposables_disposed := True,
        onDidChangeSelection := \<lparr>emitter_disposed = True, fired = []\<rparr>,
        onDidReceiveMessage := \<lparr>emitter_disposed = True, fired = []\<rparr>\<rparr>],
     proxy := [AddKernel 0 (data closure_created), RemoveKernel 0]\<rparr>"
  by (simp add: s_disposed_def dispose_def s_created_eq closure_created_def new_closure_def)

theorem C7_acceptKernelMessageFromRenderer_witness:
  "acceptKernelMessageFromRenderer env_example 0 ''nope'' ''m'' s_created = Inl (UnknownEditor ''nope'')
   \<and> acceptKernelMessageFromRenderer env_example 0 ''e1'' ''m'' s_created =
       Inr (s_created\<lparr>controllers := [0 \<mapsto> closure_created\<lparr>onDidReceiveMessage :=
              \<lparr>emitter_disposed = False, fired = [MessageEvent True ''editor1'' ''m'']\<rparr>\<rparr>]\<rparr>)
   \<and> acceptKernelMessageFromRenderer env_example 0 ''e1'' ''m'' s_disposed = Inr s_disposed"
proof -
  let ?obj = "\<lparr>extensionId = ExtensionIdentifier ''pub.jupyter'', controller = 0\<rparr>"
  have g: "kernelData_get s_created 0 = Some (?obj, closure_created)"
    by (simp add: kernelData_get_def s_created_eq)
  have n: "map_of (kernelData s_disposed) 0 = None" by (simp add: s_disposed_eq)
  have e0: "\<not> js_Boolean (getEditorById env_example ''nope'')" by (simp add: env_example_def)
  have e1: "getEditorById env_example ''e1'' = Val \<lparr>apiEditor = ''editor1''\<rparr>"
    by (simp add: env_example_def)
  have a: "acceptKernelMessageFromRenderer env_example 0 ''nope'' ''m'' s_created =
      Inl (UnknownEditor ''nope'')"
    using C7_acceptKernelMessageFromRenderer [of s_created 0 env_example "''nope''" "''m''" ?obj
        closure_created] g e0 by blast
  have "acceptKernelMessageFromRenderer env_example 0 ''e1'' ''m'' s_created =
      Inr (s_created\<lparr>controllers := (controllers s_created)(controller ?obj \<mapsto>
             closure_created\<lparr>onDidReceiveMessage := (onDidReceiveMessage closure_created)\<lparr>fired :=
                fired (onDidReceiveMessage closure_created) @
                  [MessageEvent True (apiEditor \<lparr>apiEditor = ''editor1''\<rparr>) ''m'']\<rparr>\<rparr>)\<rparr>)"
    using C7_acceptKernelMessageFromRenderer [of s_created 0 env_example "''e1''" "''m''" ?obj
        closure_created] g e1 by blast
  then have b: "acceptKernelMessageFromRenderer env_example 0 ''e1'' ''m'' s_created =
       Inr (s_created\<lparr>controllers := [0 \<mapsto> closure_created\<lparr>onDidReceiveMessage :=
              \<lparr>emitter_disposed = False, fired = [MessageEvent True ''editor1'' ''m'']\<rparr>\<rparr>]\<rparr>)"
    by (simp add: s_created_eq closure_created_def new_closure_def)
  have c: "acceptKernelMessageFromRenderer env_example 0 ''e1'' ''m'' s_disposed = Inr s_disposed"
    using C7_acceptKernelMessageFromRenderer [of s_disposed 0 env_example "''e1''" "''m''"] n
    by blast
  show ?thesis using a b c by simp
qed

text \<open>
  Claim C7 as stated fails: the editor id \<open>nope\<close> does not resolve, and a message for it
  sent to the handle of the disposed controller raises nothing.
\<close>

theorem C7_counterexample:
  "getEditorById env_example ''nope'' = Undefined
   \<and> map_of (kernelData s_disposed) 0 = None
   \<and> acceptKernelMessageFromRenderer env_example 0 ''nope'' ''m'' s_disposed = Inr s_disposed"
  by (simp add: env_example_def s_disposed_eq acceptKernelMessageFromRenderer_def
      kernelData_get_def)

section \<open>Associations\<close>

lemma acceptNotebookAssociation_live:
  assumes "kernelData_get s h = Some (obj, c)"
  shows "acceptNotebookAssociation e h u v s =
     s\<lparr>controllers := (controllers s)(controller obj \<mapsto>
          c\<lparr>associatedNotebooks :=
               (if v then (associatedNotebooks c)(doc_uri (getNotebookDocument e u) \<mapsto> True)
                else (associatedNotebooks c)(doc_uri (getNotebookDocument e u) := None)),
            onDidChangeSelection := (onDidChangeSelection c)\<lparr>fired :=
               fired (onDidChangeSelection c) @
                 [SelectionEvent v (apiNotebook (getNotebookDocument e u))]\<rparr>\<rparr>)\<rparr>"
  using assms by (simp add: acceptNotebookAssociation_def Let_def fire_def)

lemma kernelData_get_closure_update:
  assumes "kernelData_get s h = Some (obj, c)"
  shows "kernelData_get (s\<lparr>controllers := (controllers s)(controller obj \<mapsto> c')\<rparr>) h = Some (obj, c')"
  using assms by (auto simp: kernelData_get_def split: option.splits)

lemma accept_all_effect:
  assumes "kernelData_get s h = Some (obj, c)"
  shows "\<exists>c'. kernelData_get (accept_all e h evs s) h = Some (obj, c')
     \<and> (\<forall>k. associatedNotebooks c' k =
            (case last_event e k evs of
               None \<Rightarrow> associatedNotebooks c k
             | Some True \<Rightarrow> Some True
             | Some False \<Rightarrow> None))
     \<and> fired (onDidChangeSelection c') =
         fired (onDidChangeSelection c) @
           map (\<lambda>(u, v). SelectionEvent v (apiNotebook (getNotebookDocument e u))) evs"
  using assms
proof (induction evs arbitrary: s c)
  case Nil
  then show ?case by simp
next
  case (Cons ev evs)
  obtain u v where ev: "ev = (u, v)" by (cases ev)
  let ?k = "doc_uri (getNotebookDocument e u)"
  let ?c1 = "c\<lparr>associatedNotebooks :=
               (if v then (associatedNotebooks c)(?k \<mapsto> True)
                else (associatedNotebooks c)(?k := None)),
            onDidChangeSelection := (onDidChangeSelection c)\<lparr>fired :=
               fired (onDidChangeSelection c) @
                 [SelectionEvent v (apiNotebook (getNotebookDocument e u))]\<rparr>\<rparr>"
  let ?s1 = "acceptNotebookAssociation e h u v s"
  have s1: "?s1 = s\<lparr>controllers := (controllers s)(controller obj \<mapsto> ?c1)\<rparr>"
    by (rule acceptNotebookAssociation_live [OF Cons.prems])
  have g1: "kernelData_get ?s1 h = Some (obj, ?c1)"
    unfolding s1 by (rule kernelData_get_closure_update [OF Cons.prems])
  from Cons.IH [OF g1] obtain c' where
    c': "kernelData_get (accept_all e h evs ?s1) h = Some (obj, c')"
        "\<forall>k. associatedNotebooks c' k =
            (case last_event e k evs of
               None \<Rightarrow> associatedNotebooks ?c1 k
             | Some True \<Rightarrow> Some True
             | Some False \<Rightarrow> None)"
        "fired (onDidChangeSelection c') =
           fired (onDidChangeSelection ?c1) @
             map (\<lambda>(u, v). SelectionEvent v (apiNotebook (getNotebookDocument e u))) evs"
    by blast
  have a: "kernelData_get (accept_all e h (ev # evs) s) h = Some (obj, c')"
    using c'(1) ev by simp
  have b: "\<forall>k. associatedNotebooks c' k =
            (case last_event e k (ev # evs) of
               None \<Rightarrow> associatedNotebooks c k
             | Some True \<Rightarrow> Some True
             | Some False \<Rightarrow> None)"
  proof
    fix k
    show "associatedNotebooks c' k =
            (case last_event e k (ev # evs) of
               None \<Rightarrow> associatedNotebooks c k
             | Some True \<Rightarrow> Some True
             | Some False \<Rightarrow> None)"
      using c'(2) [rule_format, of k] ev
      by (cases "last_event e k evs") (auto split: bool.splits)
  qed
  have d: "fired (onDidChangeSelection c') =
         fired (onDidChangeSelection c) @
           map (\<lambda>(u, v). SelectionEvent v (apiNotebook (getNotebookDocument e u))) (ev # evs)"
    using c'(3) ev by simp
  show ?case using a b d by blast
qed

lemma run_microtasks_controllers: "controllers (run_microtasks s) = controllers s"
  by (simp add: run_microtasks_def run_all_emitted)

lemma dispose_associatedNotebooks:
  "map_option associatedNotebooks (controllers (dispose h s) a) =
     map_option associatedNotebooks (controllers s a)"
  by (cases "controllers s h") (auto simp: dispose_def)

lemma priv_update_associatedNotebooks:
  "map_option associatedNotebooks (controllers (priv_update h s) a) =
     map_option associatedNotebooks (controllers s a)"
  by (cases "controllers s h") (auto simp: priv_update_def Let_def)

lemma write_data_associatedNotebooks:
  "map_option associatedNotebooks (controllers (write_data h f s) a) =
     map_option associatedNotebooks (controllers s a)"
  by (cases "controllers s h") (auto simp: write_data_def)

lemma call_setter_associatedNotebooks:
  "map_option associatedNotebooks (controllers (call_setter h x s) a) =
     map_option associatedNotebooks (controllers s a)"
proof (cases x)
  case (SetInterruptHandler v)
  have "map_option associatedNotebooks
       (controllers (case controllers s h of None \<Rightarrow> s
          | Some c \<Rightarrow> s\<lparr>controllers := (controllers s)(h \<mapsto> c\<lparr>interruptHandler_var := v\<rparr>)\<rparr>) a) =
     map_option associatedNotebooks (controllers s a)"
    by (cases "controllers s h") auto
  then show ?thesis using SetInterruptHandler
    by (simp add: set_interruptHandler_def priv_update_associatedNotebooks
        write_data_associatedNotebooks)
qed (simp_all add: set_label_def set_detail_def set_description_def set_supportedLanguages_def
      set_hasExecutionOrder_def priv_update_associatedNotebooks write_data_associatedNotebooks)

text \<open>
  Claim C8, as amended. For a registered handle, an association of a notebook followed
  by its dissociation leaves that notebook out of \<^verbatim>\<open>associatedNotebooks\<close> and every other
  entry as it was: the map is empty afterwards when it held no other notebook before.
  The two calls fire the selection event twice, first with \<open>selected = true\<close>, then with
  \<open>selected = false\<close>. After any sequence of association events the map holds, for each
  notebook the sequence mentions, what the last event about it says (present after
  \<open>true\<close>, absent after \<open>false\<close>), and the entries of the other notebooks are as before.
  Metadata setters, \<^verbatim>\<open>dispose\<close> and the scheduled continuations leave the map alone.
\<close>

theorem C8_association:
  assumes "kernelData_get s h = Some (obj, c)"
  shows "(\<exists>c2. kernelData_get
              (acceptNotebookAssociation e h u False (acceptNotebookAssociation e h u True s)) h =
              Some (obj, c2)
          \<and> associatedNotebooks c2 =
              (associatedNotebooks c)(doc_uri (getNotebookDocument e u) := None)
          \<and> (dom (associatedNotebooks c) \<subseteq> {doc_uri (getNotebookDocument e u)} \<longrightarrow>
                associatedNotebooks c2 = Map.empty)
          \<and> fired (onDidChangeSelection c2) =
              fired (onDidChangeSelection c) @
                [SelectionEvent True (apiNotebook (getNotebookDocument e u)),
                 SelectionEvent False (apiNotebook (getNotebookDocument e u))])
     \<and> (\<exists>c'. kernelData_get (accept_all e h evs s) h = Some (obj, c')
          \<and> (\<forall>k. associatedNotebooks c' k =
                (case last_event e k evs of
                   None \<Rightarrow> associatedNotebooks c k
                 | Some True \<Rightarrow> Some True
                 | Some False \<Rightarrow> None))
          \<and> fired (onDidChangeSelection c') =
              fired (onDidChangeSelection c) @
                map (\<lambda>(u, v). SelectionEvent v (apiNotebook (getNotebookDocument e u))) evs)
     \<and> (\<forall>a x. map_option associatedNotebooks (controllers (call_setter a x s) (controller obj)) =
                 Some (associatedNotebooks c))
     \<and> (\<forall>a. map_option associatedNotebooks (controllers (dispose a s) (controller obj)) =
                 Some (associatedNotebooks c))
     \<and> map_option associatedNotebooks (controllers (run_microtasks s) (controller obj)) =
         Some (associatedNotebooks c)"
proof -
  let ?k = "doc_uri (getNotebookDocument e u)"
  let ?nb = "apiNotebook (getNotebookDocument e u)"
  have cs: "controllers s (controller obj) = Some c"
    using kernelData_get_SomeD [OF assms] by simp
  from accept_all_effect [OF assms, of e "[(u, True), (u, False)]"] obtain c2 where
    c2: "kernelData_get (accept_all e h [(u, True), (u, False)] s) h = Some (obj, c2)"
        "\<forall>k. associatedNotebooks c2 k =
            (case last_event e k [(u, True), (u, False)] of
               None \<Rightarrow> associatedNotebooks c k
             | Some True \<Rightarrow> Some True
             | Some False \<Rightarrow> None)"
        "fired (onDidChangeSelection c2) =
           fired (onDidChangeSelection c) @
             map (\<lambda>(u, v). SelectionEvent v (apiNotebook (getNotebookDocument e u)))
               [(u, True), (u, False)]"
    by blast
  have m: "associatedNotebooks c2 = (associatedNotebooks c)(?k := None)"
  proof
    fix k
    show "associatedNotebooks c2 k = ((associatedNotebooks c)(?k := None)) k"
      using c2(2) [rule_format, of k] by simp
  qed
  have em: "dom (associatedNotebooks c) \<subseteq> {?k} \<longrightarrow> associatedNotebooks c2 = Map.empty"
  proof
    assume d: "dom (associatedNotebooks c) \<subseteq> {?k}"
    show "associatedNotebooks c2 = Map.empty"
    proof
      fix k
      show "associatedNotebooks c2 k = None"
      proof (cases "k = ?k")
        case True
        then show ?thesis by (simp add: m)
      next
        case False
        then have "k \<notin> dom (associatedNotebooks c)" using d by blast
        then show ?thesis using False by (simp add: m domIff)
      qed
    qed
  qed
  have toggle: "\<exists>c2. kernelData_get
              (acceptNotebookAssociation e h u False (acceptNotebookAssociation e h u True s)) h =
              Some (obj, c2)
          \<and> associatedNotebooks c2 = (associatedNotebooks c)(?k := None)
          \<and> (dom (associatedNotebooks c) \<subseteq> {?k} \<longrightarrow> associatedNotebooks c2 = Map.empty)
          \<and> fired (onDidChangeSelection c2) =
              fired (onDidChangeSelection c) @ [SelectionEvent True ?nb, SelectionEvent False ?nb]"
    using c2(1) c2(3) m em by auto
  have frame1: "\<forall>a x. map_option associatedNotebooks (controllers (call_setter a x s) (controller obj)) =
                 Some (associatedNotebooks c)"
    by (simp add: call_setter_associatedNotebooks cs)
  have frame2: "\<forall>a. map_option associatedNotebooks (controllers (dispose a s) (controller obj)) =
                 Some (associatedNotebooks c)"
    by (simp add: dispose_associatedNotebooks cs)
  have frame3: "map_option associatedNotebooks (controllers (run_microtasks s) (controller obj)) =
         Some (associatedNotebooks c)"
    by (simp add: run_microtasks_controllers cs)
  show ?thesis using toggle accept_all_effect [OF assms, of e evs] frame1 frame2 frame3 by blast
qed

text \<open>The state with the association to notebook \<open>A\<close>, evaluated.\<close>

lemma s_associated_eq:
  "s_associated = s_created\<lparr>controllers := [0 \<mapsto> closure_created\<lparr>
      associatedNotebooks := [''A'' \<mapsto> True],
      onDidChangeSelection := \<lparr>emitter_disposed = False,
         fired = [SelectionEvent True \<lparr>uri = ''A''\<rparr>]\<rparr>\<rparr>]\<rparr>"
  by (simp add: s_associated_def acceptNotebookAssociation_def kernelData_get_def s_created_eq
      Let_def fire_def env_example_def doc_example_def closure_created_def new_closure_def)

theorem C8_association_witness:
  "kernelData_get s_created 0 =
     Some (\<lparr>extensionId = ExtensionIdentifier ''pub.jupyter'', controller = 0\<rparr>, closure_created)
   \<and> map_option (\<lambda>c. (associatedNotebooks c ''A'', associatedNotebooks c ''B'',
          fired (onDidChangeSelection c)))
       (controllers (acceptNotebookAssociation env_example 0 ''A'' False
          (acceptNotebookAssociation env_example 0 ''A'' True s_created)) 0) =
       Some (None, None, [SelectionEvent True \<lparr>uri = ''A''\<rparr>, SelectionEvent False \<lparr>uri = ''A''\<rparr>])"
proof -
  let ?obj = "\<lparr>extensionId = ExtensionIdentifier ''pub.jupyter'', controller = 0\<rparr>"
  let ?s2 = "acceptNotebookAssociation env_example 0 ''A'' False
          (acceptNotebookAssociation env_example 0 ''A'' True s_created)"
  have g: "kernelData_get s_created 0 = Some (?obj, closure_created)"
    by (simp add: kernelData_get_def s_created_eq)
  have k: "doc_uri (getNotebookDocument env_example ''A'') = ''A''"
      "apiNotebook (getNotebookDocument env_example ''A'') = \<lparr>uri = ''A''\<rparr>"
    by (simp_all add: env_example_def doc_example_def)
  have z: "associatedNotebooks closure_created = Map.empty"
      "fired (onDidChangeSelection closure_created) = []"
    by (simp_all add: closure_created_def new_closure_def)
  from C8_association [OF g, of env_example "''A''" "[]"] obtain c2 where
    c2: "kernelData_get ?s2 0 = Some (?obj, c2)"
        "associatedNotebooks c2 =
           (associatedNotebooks closure_created)(doc_uri (getNotebookDocument env_example ''A'') := None)"
        "fired (onDidChangeSelection c2) =
              fired (onDidChangeSelection closure_created) @
                [SelectionEvent True (apiNotebook (getNotebookDocument env_example ''A'')),
                 SelectionEvent False (apiNotebook (getNotebookDocument env_example ''A''))]"
    by blast
  have "controllers ?s2 0 = Some c2" using kernelData_get_SomeD [OF c2(1)] by simp
  then show ?thesis using g c2(2) c2(3) k z by simp
qed

text \<open>
  Claim C8 as stated fails: the controller of the example is associated to notebook \<open>A\<close>;
  associating and dissociating notebook \<open>B\<close> leaves \<open>A\<close> in the map, which is not empty.
\<close>

theorem C8_counterexample:
  "associatedNotebooks_has (acceptNotebookAssociation env_example 0 ''B'' False
        (acceptNotebookAssociation env_example 0 ''B'' True s_associated)) 0 ''A''
   \<and> map_of (kernelData s_associated) 0 =
       Some \<lparr>extensionId = ExtensionIdentifier ''pub.jupyter'', controller = 0\<rparr>
   \<and> map_option isDisposed (controllers s_associated 0) = Some False"
  by (simp add: acceptNotebookAssociation_def kernelData_get_def s_associated_eq s_created_eq
      Let_def fire_def env_example_def doc_example_def closure_created_def new_closure_def
      associatedNotebooks_has_def)

section \<open>Cancellation\<close>

text \<open>
  What \<^verbatim>\<open>$cancelCells\<close> does for a registered handle: with no interrupt handler, one
  cancellation request per cell handle that resolves; with an interrupt handler that
  returns, one call of the handler and then the same requests; with an interrupt handler
  that throws, one call of the handler, a rejected promise and no request.
\<close>

lemma cancelCells_live:
  assumes "kernelData_get s h = Some (obj, c)"
  shows "cancelCells e h u handles s =
     (case get_interruptHandler c of
        Val f \<Rightarrow>
          (case f (apiNotebook (getNotebookDocument e u)) of
             Returned \<Rightarrow>
               (None, s\<lparr>calls := calls s @
                  InterruptHandlerCall (apiNotebook (getNotebookDocument e u)) (controller obj) #
                  map CancelOneNotebookCellExecution
                    (resolved_cells (getNotebookDocument e u) handles)\<rparr>)
           | Threw x \<Rightarrow>
               (Some (HandlerThrew x), s\<lparr>calls := calls s @
                  [InterruptHandlerCall (apiNotebook (getNotebookDocument e u)) (controller obj)]\<rparr>))
      | _ \<Rightarrow>
          (None, s\<lparr>calls := calls s @
             map CancelOneNotebookCellExecution (resolved_cells (getNotebookDocument e u) handles)\<rparr>))"
  using assms
  by (simp add: cancelCells_def Let_def cancel_cells_resolved
      split: nullable.splits outcome.splits)

lemma cancelCells_absent:
  "map_of (kernelData s) h = None \<Longrightarrow> cancelCells e h u handles s = (None, s)"
  by (simp add: cancelCells_def kernelData_get_absent)

text \<open>The state with the throwing interrupt handler, evaluated.\<close>

lemma s_interrupt_throws_eq:
  "s_interrupt_throws = s_created\<lparr>controllers := [0 \<mapsto> closure_created\<lparr>
        interruptHandler_var := Val (\<lambda>nb. Threw ''boom''),
        data := (data closure_created)\<lparr>dto_supportsInterrupt := Val True\<rparr>,
        tokenPool := 1\<rparr>],
     proxy := [AddKernel 0 (data closure_created),
        UpdateKernel 0 ((data closure_created)\<lparr>dto_supportsInterrupt := Val True\<rparr>)]\<rparr>"
  by (simp add: s_interrupt_throws_def set_interruptHandler_def write_data_def priv_update_def
      run_microtasks_def Let_def s_created_eq closure_created_def new_closure_def)

text \<open>
  Claim C6, at an input where the code does not do what the claim says. The controller
  of the example has an interrupt handler that throws. \<^verbatim>\<open>$cancelCells\<close> for the cell handles
  0 and 1, which both resolve, calls the handler once, rejects with the handler's error
  and requests no cancellation: the calls made are the one call of the handler.
\<close>

theorem C6_interrupt_handler_throws:
  "cancelCells env_example 0 ''A'' [0, 1] s_interrupt_throws =
     (Some (HandlerThrew ''boom''),
      s_interrupt_throws\<lparr>calls := [InterruptHandlerCall \<lparr>uri = ''A''\<rparr> 0]\<rparr>)
   \<and> resolved_cells (getNotebookDocument env_example ''A'') [0, 1] =
       [cell_example ''A'' 0, cell_example ''A'' 1]
   \<and> map_of (kernelData s_interrupt_throws) 0 =
       Some \<lparr>extensionId = ExtensionIdentifier ''pub.jupyter'', controller = 0\<rparr>
   \<and> map_option isDisposed (controllers s_interrupt_throws 0) = Some False"
proof -
  let ?obj = "\<lparr>extensionId = ExtensionIdentifier ''pub.jupyter'', controller = 0\<rparr>"
  let ?c = "closure_created\<lparr>
        interruptHandler_var := Val (\<lambda>nb. Threw ''boom''),
        data := (data closure_created)\<lparr>dto_supportsInterrupt := Val True\<rparr>,
        tokenPool := 1\<rparr>"
  have g: "kernelData_get s_interrupt_throws 0 = Some (?obj, ?c)"
    by (simp add: kernelData_get_def s_interrupt_throws_eq s_created_eq)
  have k: "calls s_interrupt_throws = []" by (simp add: s_interrupt_throws_eq s_created_eq)
  have nb: "apiNotebook (getNotebookDocument env_example ''A'') = \<lparr>uri = ''A''\<rparr>"
    by (simp add: env_example_def doc_example_def)
  have a: "cancelCells env_example 0 ''A'' [0, 1] s_interrupt_throws =
     (Some (HandlerThrew ''boom''),
      s_interrupt_throws\<lparr>calls := [InterruptHandlerCall \<lparr>uri = ''A''\<rparr> 0]\<rparr>)"
    using cancelCells_live [OF g, of env_example "''A''" "[0, 1]"] k nb
    by (simp add: get_interruptHandler_def)
  have r: "resolved_cells (getNotebookDocument env_example ''A'') [0, 1] =
       [cell_example ''A'' 0, cell_example ''A'' 1]"
    by (simp add: resolved_cells_def env_example_def doc_example_def)
  have m: "map_of (kernelData s_interrupt_throws) 0 = Some ?obj"
    by (simp add: s_interrupt_throws_eq s_created_eq)
  have d: "map_option isDisposed (controllers s_interrupt_throws 0) = Some False"
    by (simp add: s_interrupt_throws_eq closure_created_def new_closure_def)
  show ?thesis using a r m d by simp
qed

section \<open>A rejected registration\<close>

lemma call_setter_disposed:
  assumes "controllers s h = Some c" and "isDisposed c"
  shows "\<exists>c'. controllers (call_setter h x s) h = Some c' \<and> isDisposed c'
           \<and> microtasks (call_setter h x s) = microtasks s
           \<and> proxy (call_setter h x s) = proxy s"
proof (cases x)
  case (SetLabel v)
  then show ?thesis using assms
    by (simp add: set_label_def write_data_def priv_update_def Let_def)
next
  case (SetDetail v)
  then show ?thesis using assms
    by (simp add: set_detail_def write_data_def priv_update_def Let_def)
next
  case (SetDescription v)
  then show ?thesis using assms
    by (simp add: set_description_def write_data_def priv_update_def Let_def)
next
  case (SetSupportedLanguages v)
  then show ?thesis using assms
    by (simp add: set_supportedLanguages_def write_data_def priv_update_def Let_def)
next
  case (SetHasExecutionOrder v)
  then show ?thesis using assms
    by (simp add: set_hasExecutionOrder_def write_data_def priv_update_def Let_def)
next
  case (SetInterruptHandler v)
  then show ?thesis using assms
    by (simp add: set_interruptHandler_def write_data_def priv_update_def Let_def)
qed

lemma call_setters_disposed:
  assumes "controllers s h = Some c" and "isDisposed c"
  shows "\<exists>c'. controllers (call_setters h xs s) h = Some c' \<and> isDisposed c'
           \<and> microtasks (call_setters h xs s) = microtasks s
           \<and> proxy (call_setters h xs s) = proxy s"
  using assms
proof (induction xs arbitrary: s c)
  case Nil
  then show ?case by simp
next
  case (Cons x xs)
  from call_setter_disposed [OF Cons.prems, of x] obtain c1 where
    c1: "controllers (call_setter h x s) h = Some c1" "isDisposed c1"
        "microtasks (call_setter h x s) = microtasks s" "proxy (call_setter h x s) = proxy s"
    by blast
  from Cons.IH [OF c1(1) c1(2)] show ?case using c1(3) c1(4) by simp
qed

text \<open>
  Claim C3, as amended. When the remote registration of a controller that
  \<^verbatim>\<open>createNotebookController\<close> has returned is rejected, the rejection is written to the
  console and the \<open>isDisposed\<close> flag of the controller is set; nothing is raised. From then
  on the metadata setters schedule no update and make no call on the proxy, \<^verbatim>\<open>dispose\<close>
  does nothing, and \<^verbatim>\<open>createNotebookCellExecutionTask\<close> fails (with the disposed-controller
  error for a cell that was not removed). \<^verbatim>\<open>postMessage\<close> and \<^verbatim>\<open>updateNotebookAffinity\<close>
  have no check of the flag and still call the proxy.
\<close>

theorem C3_rejected_registration:
  assumes "createNotebookController e extension i vt l hdl pl s0 = Inr (h, s)"
  shows "\<exists>c. controllers (addKernel_rejected h x s) h = Some c \<and> isDisposed c
     \<and> console (addKernel_rejected h x s) = console s @ [ConsoleLog x]
     \<and> (\<forall>xs. microtasks (call_setters h xs (addKernel_rejected h x s)) =
               microtasks (addKernel_rejected h x s)
           \<and> proxy (call_setters h xs (addKernel_rejected h x s)) =
               proxy (addKernel_rejected h x s))
     \<and> dispose h (addKernel_rejected h x s) = addKernel_rejected h x s
     \<and> (\<forall>cell. createNotebookCellExecutionTask e c cell =
           (if index cell < 0 then Inl CellRemoved else Inl ControllerDisposed))
     \<and> (\<forall>m ed. proxy (postMessage e h m ed (addKernel_rejected h x s)) =
           proxy (addKernel_rejected h x s) @
             [PostMessage h (case ed of Val a \<Rightarrow> Val (getIdByEditor e a) | Null \<Rightarrow> Null
                               | Undefined \<Rightarrow> Undefined) m])
     \<and> (\<forall>nb p. proxy (updateNotebookAffinity h nb p (addKernel_rejected h x s)) =
           proxy (addKernel_rejected h x s) @ [UpdateNotebookPriority h (uri nb) p])"
proof -
  let ?c0 = "new_closure e extension i vt l hdl pl"
  let ?r = "addKernel_rejected h x s"
  have cs: "controllers s h = Some ?c0"
    using createNotebookController_Inr(3) [OF assms] by simp
  have r: "?r = s\<lparr>console := console s @ [ConsoleLog x],
                  controllers := (controllers s)(h \<mapsto> ?c0\<lparr>isDisposed := True\<rparr>)\<rparr>"
    using cs by (simp add: addKernel_rejected_def)
  let ?c = "?c0\<lparr>isDisposed := True\<rparr>"
  have c: "controllers ?r h = Some ?c" "isDisposed ?c" by (simp_all add: r)
  have lg: "console ?r = console s @ [ConsoleLog x]" by (simp add: r)
  have st: "\<forall>xs. microtasks (call_setters h xs ?r) = microtasks ?r
           \<and> proxy (call_setters h xs ?r) = proxy ?r"
  proof
    fix xs
    from call_setters_disposed [OF c, of xs]
    show "microtasks (call_setters h xs ?r) = microtasks ?r
           \<and> proxy (call_setters h xs ?r) = proxy ?r"
      by blast
  qed
  have dp: "dispose h ?r = ?r" using c by (simp add: dispose_def)
  have ct: "\<forall>cell. createNotebookCellExecutionTask e ?c cell =
           (if index cell < 0 then Inl CellRemoved else Inl ControllerDisposed)"
    by (simp add: createNotebookCellExecutionTask_def)
  have pm: "\<forall>m ed. proxy (postMessage e h m ed ?r) =
           proxy ?r @ [PostMessage h (case ed of Val a \<Rightarrow> Val (getIdByEditor e a) | Null \<Rightarrow> Null
                               | Undefined \<Rightarrow> Undefined) m]"
    by (simp add: postMessage_def)
  have ua: "\<forall>nb p. proxy (updateNotebookAffinity h nb p ?r) =
           proxy ?r @ [UpdateNotebookPriority h (uri nb) p]"
    by (simp add: updateNotebookAffinity_def)
  show ?thesis using c lg st dp ct pm ua by blast
qed

text \<open>The state after the rejection, evaluated.\<close>

lemma s_rejected_eq:
  "s_rejected = s_created\<lparr>console := [ConsoleLog ''duplicate''],
     controllers := [0 \<mapsto> closure_created\<lparr>isDisposed := True\<rparr>]\<rparr>"
  by (simp add: s_rejected_def addKernel_rejected_def s_created_eq)

lemma createNotebookController_example:
  "createNotebookController env_example ext_jupyter ''k'' ''nb'' [] Undefined Undefined init_state
     = Inr (0, s_created)"
  by (simp add: s_created_def state_of_def createNotebookController_def init_state_def Let_def)

theorem C3_rejected_registration_witness:
  "createNotebookController env_example ext_jupyter ''k'' ''nb'' [] Undefined Undefined init_state
     = Inr (0, s_created)
   \<and> map_option isDisposed (controllers s_rejected 0) = Some True
   \<and> console s_rejected = [ConsoleLog ''duplicate'']
   \<and> proxy (call_setters 0 setters_example s_rejected) = [AddKernel 0 (data closure_created)]
   \<and> microtasks (call_setters 0 setters_example s_rejected) = []
   \<and> dispose 0 s_rejected = s_rejected
   \<and> proxy (updateNotebookAffinity 0 \<lparr>uri = ''A''\<rparr> (Val 2) s_rejected) =
       [AddKernel 0 (data closure_created), UpdateNotebookPriority 0 ''A'' (Val 2)]"
proof -
  note c = createNotebookController_example
  from C3_rejected_registration [OF c, of "''duplicate''"] obtain c' where
    c': "controllers (addKernel_rejected 0 ''duplicate'' s_created) 0 = Some c'" "isDisposed c'"
        "console (addKernel_rejected 0 ''duplicate'' s_created) =
           console s_created @ [ConsoleLog ''duplicate'']"
        "\<forall>xs. microtasks (call_setters 0 xs (addKernel_rejected 0 ''duplicate'' s_created)) =
               microtasks (addKernel_rejected 0 ''duplicate'' s_created)
           \<and> proxy (call_setters 0 xs (addKernel_rejected 0 ''duplicate'' s_created)) =
               proxy (addKernel_rejected 0 ''duplicate'' s_created)"
        "dispose 0 (addKernel_rejected 0 ''duplicate'' s_created) =
           addKernel_rejected 0 ''duplicate'' s_created"
        "\<forall>nb p. proxy (updateNotebookAffinity 0 nb p (addKernel_rejected 0 ''duplicate'' s_created)) =
           proxy (addKernel_rejected 0 ''duplicate'' s_created) @
             [UpdateNotebookPriority 0 (uri nb) p]"
    by blast
  have p: "proxy s_rejected = [AddKernel 0 (data closure_created)]"
      "microtasks s_rejected = []" "console s_created = []"
    by (simp_all add: s_rejected_eq s_created_eq)
  have a: "map_option isDisposed (controllers s_rejected 0) = Some True"
    using c'(1) c'(2) by (simp add: s_rejected_def)
  have b: "console s_rejected = [ConsoleLog ''duplicate'']"
    using c'(3) p(3) by (simp add: s_rejected_def)
  have d: "proxy (call_setters 0 setters_example s_rejected) = [AddKernel 0 (data closure_created)]"
      "microtasks (call_setters 0 setters_example s_rejected) = []"
    using c'(4) [rule_format, of setters_example] p by (simp_all add: s_rejected_def)
  have f: "dispose 0 s_rejected = s_rejected" using c'(5) by (simp add: s_rejected_def)
  have g: "proxy (updateNotebookAffinity 0 \<lparr>uri = ''A''\<rparr> (Val 2) s_rejected) =
       [AddKernel 0 (data closure_created), UpdateNotebookPriority 0 ''A'' (Val 2)]"
    using c'(6) [rule_format, of "\<lparr>uri = ''A''\<rparr>" "Val 2"] p(1) by (simp add: s_rejected_def)
  show ?thesis using c a b d f g by simp
qed

text \<open>
  Claim C3 as stated fails: after the rejection the controller's \<^verbatim>\<open>postMessage\<close> is not a
  no-op, it makes a \<^verbatim>\<open>$postMessage\<close> call on the proxy.
\<close>

theorem C3_counterexample:
  "map_option isDisposed (controllers s_rejected 0) = Some True
   \<and> proxy s_rejected = [AddKernel 0 (data closure_created)]
   \<and> proxy (postMessage env_example 0 ''m'' Undefined s_rejected) =
       [AddKernel 0 (data closure_created), PostMessage 0 Undefined ''m'']
   \<and> postMessage env_example 0 ''m'' Undefined s_rejected \<noteq> s_rejected"
proof -
  have a: "map_option isDisposed (controllers s_rejected 0) = Some True"
    by (simp add: s_rejected_eq)
  have b: "proxy s_rejected = [AddKernel 0 (data closure_created)]"
    by (simp add: s_rejected_eq s_created_eq)
  have c: "proxy (postMessage env_example 0 ''m'' Undefined s_rejected) =
       [AddKernel 0 (data closure_created), PostMessage 0 Undefined ''m'']"
    by (simp add: postMessage_def b)
  have "proxy (postMessage env_example 0 ''m'' Undefined s_rejected) \<noteq> proxy s_rejected"
    by (simp add: b c)
  then have d: "postMessage env_example 0 ''m'' Undefined s_rejected \<noteq> s_rejected"
    by auto
  show ?thesis using a b c d by simp
qed

section \<open>Duplicate controllers\<close>

text \<open>The scan finds a record exactly when some record of the registry matches.\<close>

lemma already_exists_iff:
  "already_exists e s extension i kd \<longleftrightarrow>
     (\<exists>d \<in> snd ` set kd. controller_id s (controller d) = Val i
        \<and> ExtensionIdentifier_equals e (ext_identifier extension) (extensionId d))"
  by (induction kd) auto

lemma createNotebookController_throws_iff:
  "createNotebookController e extension i vt l hdl pl s = Inl (ControllerAlreadyExists i) \<longleftrightarrow>
     already_exists e s extension i (kernelData s)"
  by (simp add: createNotebookController_def Let_def)

lemma createNotebookController_isl:
  "isl (createNotebookController e extension i vt l hdl pl s) \<longleftrightarrow>
     already_exists e s extension i (kernelData s)"
  by (simp add: createNotebookController_def Let_def)

text \<open>
  Claim C2, at an input where the code does not do what the claim says. The remote side
  has rejected the registration of controller \<open>k\<close>: its \<open>isDisposed\<close> flag is set, and its
  record, the only one, is still in the registry. Creating \<open>k\<close> again under the same
  extension raises the duplicate error, though no record that is not disposed matches.
  On the other paths the claim holds at the example: with the controller alive the second
  creation fails, under another extension it succeeds, and after \<^verbatim>\<open>dispose\<close> the pair
  can be used again.
\<close>

theorem C2_rejected_controller_blocks_id:
  "createNotebookController env_example ext_jupyter ''k'' ''nb'' ''K'' Undefined Undefined s_rejected
     = Inl (ControllerAlreadyExists ''k'')
   \<and> map fst (kernelData s_rejected) = [0]
   \<and> map_option isDisposed (controllers s_rejected 0) = Some True
   \<and> dispose 0 s_rejected = s_rejected
   \<and> createNotebookController env_example ext_jupyter ''k'' ''nb'' ''K'' Undefined Undefined s_created
     = Inl (ControllerAlreadyExists ''k'')
   \<and> \<not> isl (createNotebookController env_example ext_other ''k'' ''nb'' ''K'' Undefined Undefined
          s_created)
   \<and> \<not> isl (createNotebookController env_example ext_jupyter ''k'' ''nb'' ''K'' Undefined Undefined
          s_disposed)"
proof -
  have a: "createNotebookController env_example ext_jupyter ''k'' ''nb'' ''K'' Undefined Undefined
      s_rejected = Inl (ControllerAlreadyExists ''k'')"
    by (simp add: createNotebookController_throws_iff s_rejected_eq s_created_eq controller_id_def
        closure_created_def new_closure_def env_example_def ext_jupyter_def)
  have b: "map fst (kernelData s_rejected) = [0]" by (simp add: s_rejected_eq s_created_eq)
  have c: "map_option isDisposed (controllers s_rejected 0) = Some True"
    by (simp add: s_rejected_eq)
  have d: "dispose 0 s_rejected = s_rejected" by (simp add: dispose_def s_rejected_eq)
  have f: "createNotebookController env_example ext_jupyter ''k'' ''nb'' ''K'' Undefined Undefined
      s_created = Inl (ControllerAlreadyExists ''k'')"
    by (simp add: createNotebookController_throws_iff s_created_eq controller_id_def
        closure_created_def new_closure_def env_example_def ext_jupyter_def)
  have g: "\<not> isl (createNotebookController env_example ext_other ''k'' ''nb'' ''K'' Undefined
      Undefined s_created)"
    by (simp add: createNotebookController_isl s_created_eq controller_id_def
        closure_created_def new_closure_def env_example_def ext_jupyter_def ext_other_def)
  have h: "\<not> isl (createNotebookController env_example ext_jupyter ''k'' ''nb'' ''K'' Undefined
      Undefined s_disposed)"
    by (simp add: createNotebookController_isl s_disposed_eq s_created_eq)
  show ?thesis using a b c d f g h by simp
qed

section \<open>The registry stays well formed\<close>

lemma wf_frame:
  assumes "wf s" and "kernelData s' = kernelData s"
    and "\<And>a. controllers s a \<noteq> None \<Longrightarrow> controllers s' a \<noteq> None"
  shows "wf s'"
  using assms by (auto simp: wf_def list_all_iff)

lemma wf_init_state: "wf init_state"
  by (simp add: wf_def init_state_def)

lemma list_all_update:
  "list_all P al \<Longrightarrow> P (k, v) \<Longrightarrow> list_all P (AList.update k v al)"
  by (induction al) auto

lemma wf_createNotebookController:
  assumes "wf s" and "createNotebookController e extension i vt l hdl pl s = Inr (h, s')"
  shows "wf s'"
proof -
  let ?P = "\<lambda>(a, d). controller d = a \<and> controllers s' a \<noteq> None"
  note s' = createNotebookController_Inr(3) [OF assms(2)]
  have old: "list_all ?P (kernelData s)"
    using assms(1) by (auto simp: wf_def list_all_iff s')
  have new: "?P (h, \<lparr>extensionId = ext_identifier extension, controller = h\<rparr>)"
    by (simp add: s')
  have "list_all ?P (AList.update h \<lparr>extensionId = ext_identifier extension, controller = h\<rparr>
      (kernelData s))"
    by (rule list_all_update [OF old new])
  then show ?thesis by (simp add: wf_def s')
qed

lemma wf_dispose: "wf s \<Longrightarrow> wf (dispose h s)"
  by (cases "controllers s h") (auto simp: wf_def dispose_def list_all_iff AList.delete_eq)

lemma wf_addKernel_rejected: "wf s \<Longrightarrow> wf (addKernel_rejected h x s)"
  by (cases "controllers s h") (auto simp: addKernel_rejected_def intro: wf_frame)

lemma wf_priv_update: "wf s \<Longrightarrow> wf (priv_update h s)"
  by (cases "controllers s h") (auto simp: priv_update_def Let_def intro: wf_frame)

lemma wf_write_data: "wf s \<Longrightarrow> wf (write_data h f s)"
  by (cases "controllers s h") (auto simp: write_data_def intro: wf_frame)

lemma wf_set_executeHandler: "wf s \<Longrightarrow> wf (set_executeHandler h v s)"
  by (cases "controllers s h") (auto simp: set_executeHandler_def intro: wf_frame)

lemma wf_call_setter: "wf s \<Longrightarrow> wf (call_setter h x s)"
proof (cases x)
  case (SetInterruptHandler v)
  assume w: "wf s"
  have "wf (case controllers s h of None \<Rightarrow> s
     | Some c \<Rightarrow> s\<lparr>controllers := (controllers s)(h \<mapsto> c\<lparr>interruptHandler_var := v\<rparr>)\<rparr>)"
    using w by (cases "controllers s h") (auto intro: wf_frame)
  then show ?thesis using SetInterruptHandler
    by (simp add: set_interruptHandler_def wf_priv_update wf_write_data)
qed (simp_all add: set_label_def set_detail_def set_description_def set_supportedLanguages_def
      set_hasExecutionOrder_def wf_priv_update wf_write_data)

lemma wf_run_microtasks: "wf s \<Longrightarrow> wf (run_microtasks s)"
  by (rule wf_frame [of s]) (simp_all add: run_microtasks_def run_all_emitted)

lemma wf_postMessage: "wf s \<Longrightarrow> wf (postMessage e h m ed s)"
  by (rule wf_frame [of s]) (simp_all add: postMessage_def)

lemma wf_updateNotebookAffinity: "wf s \<Longrightarrow> wf (updateNotebookAffinity h nb p s)"
  by (rule wf_frame [of s]) (simp_all add: updateNotebookAffinity_def)

lemma wf_acceptNotebookAssociation: "wf s \<Longrightarrow> wf (acceptNotebookAssociation e h u v s)"
  by (cases "kernelData_get s h")
     (auto simp: acceptNotebookAssociation_def Let_def intro: wf_frame)

lemma wf_executeCells: "wf s \<Longrightarrow> wf (snd (executeCells e h u handles s))"
proof (cases "kernelData_get s h")
  case None
  assume "wf s"
  then show ?thesis using None by (simp add: executeCells_def)
next
  case (Some p)
  assume w: "wf s"
  obtain obj c where p: "p = (obj, c)" by (cases p)
  show ?thesis
  proof (cases "get_executeHandler c")
    case (DefaultExecutHandler j x)
    then show ?thesis using w Some p
      by (auto simp: executeCells_def Let_def intro: wf_frame)
  next
    case (ExtensionExecuteHandler f)
    then show ?thesis using w Some p
      by (auto simp: executeCells_def Let_def split: outcome.splits intro: wf_frame)
  qed
qed

lemma wf_cancelCells: "wf s \<Longrightarrow> wf (snd (cancelCells e h u handles s))"
proof (cases "kernelData_get s h")
  case None
  assume "wf s"
  then show ?thesis using None by (simp add: cancelCells_def)
next
  case (Some p)
  assume w: "wf s"
  obtain obj c where p: "p = (obj, c)" by (cases p)
  have "kernelData_get s h = Some (obj, c)" using Some p by simp
  from cancelCells_live [OF this, of e u handles] show ?thesis using w
    by (auto split: nullable.splits outcome.splits intro: wf_frame)
qed

lemma wf_acceptKernelMessageFromRenderer:
  "wf s \<Longrightarrow> acceptKernelMessageFromRenderer e h editorId m s = Inr s' \<Longrightarrow> wf s'"
  by (cases "kernelData_get s h"; cases "getEditorById e editorId")
     (auto simp: acceptKernelMessageFromRenderer_def intro: wf_frame)

text \<open>In a well-formed registry a record is found exactly when the handle is registered.\<close>

lemma wf_kernelData_get:
  assumes "wf s"
  shows "kernelData_get s h = None \<longleftrightarrow> map_of (kernelData s) h = None"
proof (cases "map_of (kernelData s) h")
  case None
  then show ?thesis by (simp add: kernelData_get_def)
next
  case (Some obj)
  then have "(h, obj) \<in> set (kernelData s)" by (rule map_of_SomeD)
  then have "controller obj = h \<and> controllers s h \<noteq> None"
    using assms by (auto simp: wf_def list_all_iff)
  then show ?thesis using Some by (auto simp: kernelData_get_def)
qed

section \<open>Pending continuations hold issued tokens\<close>

lemma token_issued_update:
  assumes "cs a = Some c" and "tokenPool c \<le> tokenPool c'" and "token_issued cs m"
  shows "token_issued (cs(a \<mapsto> c')) m"
  using assms by (cases m) (auto split: option.splits)

lemma tokens_ok_update:
  assumes "tokens_ok s" and "controllers s a = Some c" and "tokenPool c \<le> tokenPool c'"
    and "controllers s' = (controllers s)(a \<mapsto> c')" and "microtasks s' = microtasks s"
  shows "tokens_ok s'"
  using assms by (auto simp: tokens_ok_def list_all_iff intro: token_issued_update)

lemma tokens_ok_same:
  assumes "tokens_ok s" and "controllers s' = controllers s" and "microtasks s' = microtasks s"
  shows "tokens_ok s'"
  using assms by (simp add: tokens_ok_def)

lemma tokens_okD:
  assumes "tokens_ok s" and "controllers s h = Some c"
  shows "\<forall>t. UpdateContinuation h t \<in> set (microtasks s) \<longrightarrow> t \<le> tokenPool c"
proof (intro allI impI)
  fix t
  assume "UpdateContinuation h t \<in> set (microtasks s)"
  then have "token_issued (controllers s) (UpdateContinuation h t)"
    using assms(1) unfolding tokens_ok_def list_all_iff by blast
  then show "t \<le> tokenPool c" using assms(2) by simp
qed

lemma tokens_ok_init_state: "tokens_ok init_state"
  by (simp add: tokens_ok_def init_state_def)

lemma fresh_init_state: "fresh init_state"
  by (simp add: fresh_def init_state_def)

lemma tokens_ok_createNotebookController:
  assumes "tokens_ok s" and "fresh s"
    and "createNotebookController e extension i vt l hdl pl s = Inr (h, s')"
  shows "tokens_ok s'"
proof -
  note s' = createNotebookController_Inr(3) [OF assms(3)]
  note h = createNotebookController_Inr(1) [OF assms(3)]
  have n: "controllers s h = None" using assms(2) h by (simp add: fresh_def)
  have "token_issued ((controllers s)(h \<mapsto> c')) m" if "token_issued (controllers s) m" for m c'
    using that n by (cases m) (auto split: option.splits)
  then show ?thesis using assms(1) by (simp add: tokens_ok_def list_all_iff s')
qed

lemma fresh_createNotebookController:
  assumes "fresh s" and "createNotebookController e extension i vt l hdl pl s = Inr (h, s')"
  shows "fresh s'"
  using assms(1) createNotebookController_Inr(1) [OF assms(2)]
  by (simp add: createNotebookController_Inr(3) [OF assms(2)] fresh_def)

lemma tokens_ok_priv_update: "tokens_ok s \<Longrightarrow> tokens_ok (priv_update h s)"
proof (cases "controllers s h")
  case None
  assume "tokens_ok s"
  then show ?thesis using None by (simp add: priv_update_def)
next
  case (Some c)
  assume t: "tokens_ok s"
  show ?thesis
  proof (cases "isDisposed c")
    case True
    then show ?thesis using t Some by (simp add: priv_update_def)
  next
    case False
    let ?c' = "c\<lparr>tokenPool := tokenPool c + 1\<rparr>"
    have "token_issued ((controllers s)(h \<mapsto> ?c')) m" if "token_issued (controllers s) m" for m
      using that Some by (intro token_issued_update [of _ _ c]) simp_all
    then have "list_all (token_issued ((controllers s)(h \<mapsto> ?c'))) (microtasks s)"
      using t by (simp add: tokens_ok_def list_all_iff)
    then show ?thesis using Some False by (simp add: priv_update_def Let_def tokens_ok_def)
  qed
qed

lemma tokens_ok_write_data: "tokens_ok s \<Longrightarrow> tokens_ok (write_data h f s)"
proof (cases "controllers s h")
  case None
  assume "tokens_ok s"
  then show ?thesis using None by (simp add: write_data_def)
next
  case (Some c)
  assume t: "tokens_ok s"
  show ?thesis
    using Some by (intro tokens_ok_update [OF t Some, of "c\<lparr>data := f c (data c)\<rparr>"])
      (simp_all add: write_data_def)
qed

lemma tokens_ok_interruptHandler_var:
  "tokens_ok s \<Longrightarrow> tokens_ok (case controllers s h of None \<Rightarrow> s
     | Some c \<Rightarrow> s\<lparr>controllers := (controllers s)(h \<mapsto> c\<lparr>interruptHandler_var := v\<rparr>)\<rparr>)"
proof (cases "controllers s h")
  case None
  assume "tokens_ok s"
  then show ?thesis using None by simp
next
  case (Some c)
  assume t: "tokens_ok s"
  show ?thesis
    using Some by (intro tokens_ok_update [OF t Some, of "c\<lparr>interruptHandler_var := v\<rparr>"]) simp_all
qed

lemma tokens_ok_call_setter: "tokens_ok s \<Longrightarrow> tokens_ok (call_setter h x s)"
  by (cases x)
     (simp_all add: set_label_def set_detail_def set_description_def set_supportedLanguages_def
        set_hasExecutionOrder_def set_interruptHandler_def tokens_ok_priv_update
        tokens_ok_write_data tokens_ok_interruptHandler_var)

lemma tokens_ok_call_setters: "tokens_ok s \<Longrightarrow> tokens_ok (call_setters h xs s)"
  by (induction xs arbitrary: s) (simp_all add: tokens_ok_call_setter)

lemma tokens_ok_run_microtasks: "tokens_ok (run_microtasks s)"
  by (simp add: run_microtasks_def run_all_emitted tokens_ok_def)

lemma tokens_ok_set_executeHandler: "tokens_ok s \<Longrightarrow> tokens_ok (set_executeHandler h v s)"
proof (cases "controllers s h")
  case None
  assume "tokens_ok s"
  then show ?thesis using None by (simp add: set_executeHandler_def)
next
  case (Some c)
  assume t: "tokens_ok s"
  show ?thesis
    using Some
    by (intro tokens_ok_update [OF t Some, of "c\<lparr>executeHandler_var := nullish_default v
         (DefaultExecutHandler (dto_id (data c)) (ext_identifier (c_extension c)))\<rparr>"])
       (simp_all add: set_executeHandler_def)
qed

lemma tokens_ok_dispose: "tokens_ok s \<Longrightarrow> tokens_ok (dispose h s)"
proof (cases "controllers s h")
  case None
  assume "tokens_ok s"
  then show ?thesis using None by (simp add: dispose_def)
next
  case (Some c)
  assume t: "tokens_ok s"
  show ?thesis
  proof (cases "isDisposed c")
    case True
    then show ?thesis using t Some by (simp add: dispose_def)
  next
    case False
    show ?thesis
      using Some False
      by (intro tokens_ok_update [OF t Some, of "c\<lparr>isDisposed := True,
             commandDisposables_disposed := True,
             onDidChangeSelection := (onDidChangeSelection c)\<lparr>emitter_disposed := True\<rparr>,
             onDidReceiveMessage := (onDidReceiveMessage c)\<lparr>emitter_disposed := True\<rparr>\<rparr>"])
         (simp_all add: dispose_def)
  qed
qed

lemma tokens_ok_addKernel_rejected: "tokens_ok s \<Longrightarrow> tokens_ok (addKernel_rejected h x s)"
proof (cases "controllers s h")
  case None
  assume "tokens_ok s"
  then show ?thesis using None by (simp add: addKernel_rejected_def)
next
  case (Some c)
  assume t: "tokens_ok s"
  show ?thesis
    using Some by (intro tokens_ok_update [OF t Some, of "c\<lparr>isDisposed := True\<rparr>"])
      (simp_all add: addKernel_rejected_def)
qed

lemma tokens_ok_postMessage: "tokens_ok s \<Longrightarrow> tokens_ok (postMessage e h m ed s)"
  by (rule tokens_ok_same [of s]) (simp_all add: postMessage_def)

lemma tokens_ok_updateNotebookAffinity: "tokens_ok s \<Longrightarrow> tokens_ok (updateNotebookAffinity h nb p s)"
  by (rule tokens_ok_same [of s]) (simp_all add: updateNotebookAffinity_def)

lemma tokens_ok_acceptNotebookAssociation:
  "tokens_ok s \<Longrightarrow> tokens_ok (acceptNotebookAssociation e h u v s)"
proof (cases "kernelData_get s h")
  case None
  assume "tokens_ok s"
  then show ?thesis using None by (simp add: acceptNotebookAssociation_def)
next
  case (Some p)
  assume t: "tokens_ok s"
  obtain obj c where p: "p = (obj, c)" by (cases p)
  have g: "kernelData_get s h = Some (obj, c)" using Some p by simp
  have c: "controllers s (controller obj) = Some c" using kernelData_get_SomeD [OF g] by simp
  show ?thesis
    unfolding acceptNotebookAssociation_live [OF g]
    by (rule tokens_ok_update [OF t c]) simp_all
qed

lemma tokens_ok_executeCells: "tokens_ok s \<Longrightarrow> tokens_ok (snd (executeCells e h u handles s))"
proof (cases "kernelData_get s h")
  case None
  assume "tokens_ok s"
  then show ?thesis using None by (simp add: executeCells_def)
next
  case (Some p)
  assume w: "tokens_ok s"
  obtain obj c where p: "p = (obj, c)" by (cases p)
  have same: "controllers (snd (executeCells e h u handles s)) = controllers s
      \<and> microtasks (snd (executeCells e h u handles s)) = microtasks s"
  proof (cases "get_executeHandler c")
    case (DefaultExecutHandler j x)
    then show ?thesis using Some p by (simp add: executeCells_def Let_def)
  next
    case (ExtensionExecuteHandler f)
    then show ?thesis using Some p
      by (simp add: executeCells_def Let_def split: outcome.splits)
  qed
  show ?thesis using same by (intro tokens_ok_same [OF w]) simp_all
qed

lemma tokens_ok_cancelCells: "tokens_ok s \<Longrightarrow> tokens_ok (snd (cancelCells e h u handles s))"
proof (cases "kernelData_get s h")
  case None
  assume "tokens_ok s"
  then show ?thesis using None by (simp add: cancelCells_def)
next
  case (Some p)
  assume w: "tokens_ok s"
  obtain obj c where p: "p = (obj, c)" by (cases p)
  have "kernelData_get s h = Some (obj, c)" using Some p by simp
  from cancelCells_live [OF this, of e u handles]
  have "controllers (snd (cancelCells e h u handles s)) = controllers s
      \<and> microtasks (snd (cancelCells e h u handles s)) = microtasks s"
    by (simp split: nullable.splits outcome.splits)
  then show ?thesis by (intro tokens_ok_same [OF w]) simp_all
qed

lemma tokens_ok_acceptKernelMessageFromRenderer:
  assumes "tokens_ok s" and "acceptKernelMessageFromRenderer e h editorId m s = Inr s'"
  shows "tokens_ok s'"
proof (cases "kernelData_get s h")
  case None
  then show ?thesis using assms by (simp add: acceptKernelMessageFromRenderer_def)
next
  case (Some p)
  obtain obj c where p: "p = (obj, c)" by (cases p)
  have g: "kernelData_get s h = Some (obj, c)" using Some p by simp
  have c: "controllers s (controller obj) = Some c" using kernelData_get_SomeD [OF g] by simp
  obtain editor where ed: "getEditorById e editorId = Val editor"
    using assms(2) g by (cases "getEditorById e editorId")
      (simp_all add: acceptKernelMessageFromRenderer_def)
  have "s' = s\<lparr>controllers := (controllers s)(controller obj \<mapsto>
        c\<lparr>onDidReceiveMessage := fire (MessageEvent True (apiEditor editor) m)
             (onDidReceiveMessage c)\<rparr>)\<rparr>"
    using assms(2) g ed by (simp add: acceptKernelMessageFromRenderer_def)
  then show ?thesis by (intro tokens_ok_update [OF assms(1) c]) simp_all
qed

text \<open>Only creation changes \<open>handlePool\<close> or brings a controller into the store.\<close>

lemma fresh_same:
  assumes "fresh s" and "handlePool s' = handlePool s"
    and "\<And>a. controllers s a = None \<Longrightarrow> controllers s' a = None"
  shows "fresh s'"
  using assms by (simp add: fresh_def)

lemma fresh_priv_update: "fresh s \<Longrightarrow> fresh (priv_update h s)"
  by (cases "controllers s h") (auto simp: priv_update_def Let_def fresh_def)

lemma fresh_write_data: "fresh s \<Longrightarrow> fresh (write_data h f s)"
  by (cases "controllers s h") (auto simp: write_data_def fresh_def)

lemma fresh_interruptHandler_var:
  "fresh s \<Longrightarrow> fresh (case controllers s h of None \<Rightarrow> s
     | Some c \<Rightarrow> s\<lparr>controllers := (controllers s)(h \<mapsto> c\<lparr>interruptHandler_var := v\<rparr>)\<rparr>)"
  by (cases "controllers s h") (auto simp: fresh_def)

lemma fresh_call_setter: "fresh s \<Longrightarrow> fresh (call_setter h x s)"
  by (cases x)
     (simp_all add: set_label_def set_detail_def set_description_def set_supportedLanguages_def
        set_hasExecutionOrder_def set_interruptHandler_def fresh_priv_update fresh_write_data
        fresh_interruptHandler_var)

lemma fresh_run_microtasks: "fresh s \<Longrightarrow> fresh (run_microtasks s)"
  by (simp add: run_microtasks_def run_all_emitted fresh_def)

lemma fresh_set_executeHandler: "fresh s \<Longrightarrow> fresh (set_executeHandler h v s)"
  by (cases "controllers s h") (auto simp: set_executeHandler_def fresh_def)

lemma fresh_dispose: "fresh s \<Longrightarrow> fresh (dispose h s)"
  by (cases "controllers s h") (auto simp: dispose_def fresh_def)

lemma fresh_addKernel_rejected: "fresh s \<Longrightarrow> fresh (addKernel_rejected h x s)"
  by (cases "controllers s h") (auto simp: addKernel_rejected_def fresh_def)

lemma fresh_postMessage: "fresh s \<Longrightarrow> fresh (postMessage e h m ed s)"
  by (simp add: postMessage_def fresh_def)

lemma fresh_updateNotebookAffinity: "fresh s \<Longrightarrow> fresh (updateNotebookAffinity h nb p s)"
  by (simp add: updateNotebookAffinity_def fresh_def)

lemma fresh_acceptNotebookAssociation: "fresh s \<Longrightarrow> fresh (acceptNotebookAssociation e h u v s)"
proof (cases "kernelData_get s h")
  case None
  assume "fresh s"
  then show ?thesis using None by (simp add: acceptNotebookAssociation_def)
next
  case (Some p)
  assume t: "fresh s"
  obtain obj c where p: "p = (obj, c)" by (cases p)
  have g: "kernelData_get s h = Some (obj, c)" using Some p by simp
  have c: "controllers s (controller obj) = Some c" using kernelData_get_SomeD [OF g] by simp
  show ?thesis
    unfolding acceptNotebookAssociation_live [OF g]
    using c by (intro fresh_same [OF t]) auto
qed

lemma fresh_executeCells: "fresh s \<Longrightarrow> fresh (snd (executeCells e h u handles s))"
proof (cases "kernelData_get s h")
  case None
  assume "fresh s"
  then show ?thesis using None by (simp add: executeCells_def)
next
  case (Some p)
  assume w: "fresh s"
  obtain obj c where p: "p = (obj, c)" by (cases p)
  have same: "controllers (snd (executeCells e h u handles s)) = controllers s
      \<and> handlePool (snd (executeCells e h u handles s)) = handlePool s"
  proof (cases "get_executeHandler c")
    case (DefaultExecutHandler j x)
    then show ?thesis using Some p by (simp add: executeCells_def Let_def)
  next
    case (ExtensionExecuteHandler f)
    then show ?thesis using Some p
      by (simp add: executeCells_def Let_def split: outcome.splits)
  qed
  show ?thesis using same by (intro fresh_same [OF w]) simp_all
qed

lemma fresh_cancelCells: "fresh s \<Longrightarrow> fresh (snd (cancelCells e h u handles s))"
proof (cases "kernelData_get s h")
  case None
  assume "fresh s"
  then show ?thesis using None by (simp add: cancelCells_def)
next
  case (Some p)
  assume w: "fresh s"
  obtain obj c where p: "p = (obj, c)" by (cases p)
  have "kernelData_get s h = Some (obj, c)" using Some p by simp
  from cancelCells_live [OF this, of e u handles]
  have "controllers (snd (cancelCells e h u handles s)) = controllers s
      \<and> handlePool (snd (cancelCells e h u handles s)) = handlePool s"
    by (simp split: nullable.splits outcome.splits)
  then show ?thesis by (intro fresh_same [OF w]) simp_all
qed

lemma fresh_acceptKernelMessageFromRenderer:
  assumes "fresh s" and "acceptKernelMessageFromRenderer e h editorId m s = Inr s'"
  shows "fresh s'"
proof (cases "kernelData_get s h")
  case None
  then show ?thesis using assms by (simp add: acceptKernelMessageFromRenderer_def)
next
  case (Some p)
  obtain obj c where p: "p = (obj, c)" by (cases p)
  have g: "kernelData_get s h = Some (obj, c)" using Some p by simp
  have c: "controllers s (controller obj) = Some c" using kernelData_get_SomeD [OF g] by simp
  obtain editor where ed: "getEditorById e editorId = Val editor"
    using assms(2) g by (cases "getEditorById e editorId")
      (simp_all add: acceptKernelMessageFromRenderer_def)
  have "s' = s\<lparr>controllers := (controllers s)(controller obj \<mapsto>
        c\<lparr>onDidReceiveMessage := fire (MessageEvent True (apiEditor editor) m)
             (onDidReceiveMessage c)\<rparr>)\<rparr>"
    using assms(2) g ed by (simp add: acceptKernelMessageFromRenderer_def)
  then show ?thesis using c by (intro fresh_same [OF assms(1)]) auto
qed

end
